theory Spec2Isabelle
  imports Complex_Main
begin

section \<open>Weather rows as the classifiers see them\<close>

text \<open>
  The classifiers of \<^verbatim>\<open>lawn_lead_prediction.py\<close> and \<^verbatim>\<open>weather_momentum_analysis.py\<close>
  read a row through \<^verbatim>\<open>row.get(key, default) or default\<close>. A value stored under a key is
  Python's \<^verbatim>\<open>None\<close>, the float NaN that pandas stores for an empty cell of a numeric column,
  or a number; the key may also be absent from the row (\<open>None\<close> of the option type below).
  Finite floats are modelled as reals, and the decimal thresholds of the source as the
  decimal fractions they are written as.
\<close>

datatype pyval = PyNone | NaN | Num real

record weather_row =
  snowfall_in :: "pyval option"
  precip_in :: "pyval option"
  rain_in :: "pyval option"
  sunshine_hrs :: "pyval option"
  temp_max :: "pyval option"
  snow_depth :: "pyval option"
  temp_mean :: "pyval option"
  wind_max_mph :: "pyval option"

text \<open>
  What is left after \<^verbatim>\<open>row.get(key, d) or d\<close>: Python's \<^verbatim>\<open>or\<close> keeps its left operand when
  that is truthy. \<^verbatim>\<open>None\<close> and \<^verbatim>\<open>0.0\<close> are falsy, every other float is truthy, NaN included.
\<close>

datatype num = NotANumber | Fin real

fun truthy :: "pyval \<Rightarrow> bool" where
  "truthy PyNone = False"
| "truthy NaN = True"
| "truthy (Num x) = (x \<noteq> 0)"

fun get_or :: "pyval option \<Rightarrow> real \<Rightarrow> num" where
  "get_or None d = Fin d"
| "get_or (Some v) d =
     (if truthy v then (case v of Num x \<Rightarrow> Fin x | _ \<Rightarrow> NotANumber) else Fin d)"

text \<open>Float comparisons: every comparison with NaN is false.\<close>

fun gt :: "num \<Rightarrow> real \<Rightarrow> bool" where
  "gt NotANumber t = False"
| "gt (Fin x) t = (x > t)"

fun ge :: "num \<Rightarrow> real \<Rightarrow> bool" where
  "ge NotANumber t = False"
| "ge (Fin x) t = (x \<ge> t)"

fun lt :: "num \<Rightarrow> real \<Rightarrow> bool" where
  "lt NotANumber t = False"
| "lt (Fin x) t = (x < t)"

definition classify_weather_condition :: "weather_row \<Rightarrow> string" where
  "classify_weather_condition row =
     (let snowfall = get_or (snowfall_in row) 0;
          precip = get_or (precip_in row) 0;
          rain = get_or (rain_in row) 0;
          sunshine = get_or (sunshine_hrs row) 0;
          temp = get_or (temp_max row) 50
      in if gt snowfall (1/10) \<or> gt (get_or (snow_depth row) 0) 1 then ''Snow''
         else if gt rain (25/100) then ''Rain''
         else if gt rain (5/100) then ''Light Rain''
         else if ge sunshine 8 then ''Sunny''
         else if ge sunshine 4 then ''Partly Cloudy''
         else ''Cloudy/Overcast'')"

definition classify_day_weather :: "weather_row \<Rightarrow> string" where
  "classify_day_weather row =
     (let sunshine = get_or (sunshine_hrs row) 0;
          temp = get_or (temp_max row) 50;
          precip = get_or (precip_in row) 0;
          snow = get_or (snowfall_in row) 0
      in if gt snow (1/10) \<or> gt (get_or (snow_depth row) 0) 1 then ''bad''
         else if gt precip (2/10) then ''bad''
         else if ge sunshine 7 \<and> ge temp 55 then ''nice''
         else if ge sunshine 5 \<and> ge temp 50 then ''ok''
         else if lt sunshine 3 \<or> lt temp 42 then ''bad''
         else ''ok'')"

subsection \<open>The priority list of the specification\<close>

text \<open>
  The specification's reading of a field: an observation, or missing. A missing field
  takes the neutral default before the rules are applied.
\<close>

fun observed :: "pyval option \<Rightarrow> real option" where
  "observed (Some (Num x)) = Some x"
| "observed _ = None"

definition with_default :: "real \<Rightarrow> real option \<Rightarrow> real" where
  "with_default d v = (case v of None \<Rightarrow> d | Some x \<Rightarrow> x)"

definition spec_condition :: "real \<Rightarrow> real \<Rightarrow> real \<Rightarrow> real \<Rightarrow> string" where
  "spec_condition snowfall depth rain sunshine =
     (if snowfall > 1/10 \<or> depth > 1 then ''Snow''
      else if rain > 25/100 then ''Rain''
      else if rain > 5/100 then ''Light Rain''
      else if sunshine \<ge> 8 then ''Sunny''
      else if sunshine \<ge> 4 then ''Partly Cloudy''
      else ''Cloudy/Overcast'')"

definition spec_classify_condition :: "weather_row \<Rightarrow> string" where
  "spec_classify_condition row =
     spec_condition (with_default 0 (observed (snowfall_in row)))
                    (with_default 0 (observed (snow_depth row)))
                    (with_default 0 (observed (rain_in row)))
                    (with_default 0 (observed (sunshine_hrs row)))"

definition no_snow :: "weather_row \<Rightarrow> bool" where
  "no_snow row \<longleftrightarrow> with_default 0 (observed (snowfall_in row)) \<le> 1/10
                 \<and> with_default 0 (observed (snow_depth row)) \<le> 1"

text \<open>A row as pandas hands it over when only the maximum temperature was observed.\<close>

definition only_temp_max :: "real \<Rightarrow> pyval option \<Rightarrow> weather_row" where
  "only_temp_max t missing =
     \<lparr>snowfall_in = missing, precip_in = missing, rain_in = missing,
      sunshine_hrs = missing, temp_max = Some (Num t), snow_depth = missing,
      temp_mean = missing, wind_max_mph = missing\<rparr>"

section \<open>Daily aggregation of the raw leads\<close>

text \<open>
  A raw lead, after \<^verbatim>\<open>load_lead_files\<close>, is a row with a parsed \<^verbatim>\<open>date\<close> and a \<^verbatim>\<open>source\<close>
  string (a missing source was filled with \<^verbatim>\<open>'Unknown'\<close>): the pair below. Dates are day
  numbers. The calendar attributes pandas reads off a date (\<^verbatim>\<open>dt.year\<close>, \<^verbatim>\<open>dt.month\<close>,
  \<^verbatim>\<open>dt.dayofweek\<close>, the ISO week, the day number of February 15 of the date's year) are
  library functions: they are parameters of the model.
\<close>

type_synonym raw_lead = "int \<times> string"

record calendar =
  cal_year :: "int \<Rightarrow> int"
  cal_month :: "int \<Rightarrow> int"
  cal_dow :: "int \<Rightarrow> int"
  cal_week :: "int \<Rightarrow> int"
  cal_feb15 :: "int \<Rightarrow> int"

record lead_day =
  date :: int
  year :: int
  month :: int
  dow :: int
  week_num :: int
  day_of_season :: int
  is_weekend :: bool
  is_saturday :: bool
  total_leads :: int
  dm_leads :: int
  organic_leads :: int

text \<open>\<^verbatim>\<open>str.upper\<close>, on ASCII letters.\<close>

definition upper_char :: "char \<Rightarrow> char" where
  "upper_char c =
     (let n = (of_char c :: nat) in if 97 \<le> n \<and> n \<le> 122 then char_of (n - 32) else c)"

definition upper :: "string \<Rightarrow> string" where
  "upper s = map upper_char s"

definition startswith :: "string \<Rightarrow> string \<Rightarrow> bool" where
  "startswith s p \<longleftrightarrow> take (length p) s = p"

fun contains :: "string \<Rightarrow> string \<Rightarrow> bool" where
  "contains p [] = (p = [])"
| "contains p (c # cs) = (take (length p) (c # cs) = p \<or> contains p cs)"

definition classify_source :: "string \<Rightarrow> string" where
  "classify_source source =
     (let s = upper source
      in if startswith s ''DM'' \<or> contains ''DIRECT MAIL'' s then ''Direct Mail''
         else ''Organic/Digital'')"

text \<open>\<^verbatim>\<open>df.groupby('date').size()\<close>: one row per date present, dates ascending.\<close>

definition groupby_size :: "(int \<times> 'a) list \<Rightarrow> (int \<times> int) list" where
  "groupby_size df =
     map (\<lambda>d. (d, int (length (filter (\<lambda>l. fst l = d) df)))) (sort (remdups (map fst df)))"

text \<open>The left merge of a count column on \<^verbatim>\<open>date\<close>, followed by \<^verbatim>\<open>fillna(0)\<close>.\<close>

definition merged_count :: "(int \<times> int) list \<Rightarrow> int \<Rightarrow> int" where
  "merged_count counts d = (case map_of counts d of None \<Rightarrow> 0 | Some c \<Rightarrow> c)"

definition aggregate_daily :: "calendar \<Rightarrow> raw_lead list \<Rightarrow> lead_day list" where
  "aggregate_daily cal df =
     (let typed = map (\<lambda>(d, source). (d, classify_source source)) df;
          daily_total = groupby_size typed;
          daily_dm = groupby_size (filter (\<lambda>l. snd l = ''Direct Mail'') typed);
          daily_organic = groupby_size (filter (\<lambda>l. snd l = ''Organic/Digital'') typed);
          daily = map (\<lambda>(d, n).
                    \<lparr>date = d, year = cal_year cal d, month = cal_month cal d,
                     dow = cal_dow cal d, week_num = cal_week cal d,
                     day_of_season = d - cal_feb15 cal d,
                     is_weekend = (cal_dow cal d = 5 \<or> cal_dow cal d = 6),
                     is_saturday = (cal_dow cal d = 5),
                     total_leads = n,
                     dm_leads = merged_count daily_dm d,
                     organic_leads = merged_count daily_organic d\<rparr>) daily_total
      in sort_key date daily)"

section \<open>The merged daily table\<close>

text \<open>
  A row of \<^verbatim>\<open>daily_leads_weather.csv\<close>: the daily aggregate, left-merged with the weather
  of its date. A table is the list of its rows in index order; the tables below carry a
  fresh range index (\<^verbatim>\<open>reset_index\<close>, \<^verbatim>\<open>merge\<close>), so a row label is a position.
\<close>

record merged = lead_day +
  weather :: weather_row

text \<open>\<^verbatim>\<open>Series.unique()\<close>: the distinct values in order of first appearance.\<close>

fun unique :: "int list \<Rightarrow> int list" where
  "unique [] = []"
| "unique (x # xs) = x # filter (\<lambda>y. y \<noteq> x) (unique xs)"

text \<open>\<^verbatim>\<open>df[df[key] == y].index\<close>: the positions of the rows whose key is \<open>y\<close>, ascending.\<close>

definition mask_index :: "('r \<Rightarrow> int) \<Rightarrow> 'r list \<Rightarrow> int \<Rightarrow> nat list" where
  "mask_index key df y = filter (\<lambda>i. key (df ! i) = y) [0..<length df]"

section \<open>Streak tracking\<close>

record streaked = merged +
  weather_quality :: string
  nice_streak :: int
  bad_streak :: int
  prev_day_quality :: "string option"
  prev_2day_quality :: "string option"

text \<open>
  \<^verbatim>\<open>load_data\<close> of \<^verbatim>\<open>weather_momentum_analysis.py\<close>, applied to the rows of the CSV file.
  \<^verbatim>\<open>sort_values\<close> is modelled by a stable sort; the file has one row per date.
\<close>

definition load_data :: "merged list \<Rightarrow> merged list" where
  "load_data csv =
     (let df = filter (\<lambda>r. year r \<in> {2021, 2022, 2023, 2024, 2025}) csv;
          df = filter (\<lambda>r. dow r < 6) df
      in sort_key date df)"

text \<open>The rows \<open>load_data\<close> keeps.\<close>

definition kept :: "'a lead_day_scheme \<Rightarrow> bool" where
  "kept r \<longleftrightarrow> year r \<in> {2021, 2022, 2023, 2024, 2025} \<and> dow r < 6"

text \<open>The \<^verbatim>\<open>if q == 'nice' ... elif q == 'bad' ... else\<close> block on the two counters.\<close>

fun count_step :: "int \<times> int \<Rightarrow> string \<Rightarrow> int \<times> int" where
  "count_step (nice_count, bad_count) q =
     (if q = ''nice'' then (nice_count + 1, 0)
      else if q = ''bad'' then (0, bad_count + 1)
      else (0, 0))"

text \<open>The inner loop of \<^verbatim>\<open>build_streaks\<close> over the positions \<^verbatim>\<open>idx\<close> of one year.\<close>

fun streak_loop ::
  "streaked list \<Rightarrow> nat list \<Rightarrow> int \<times> int \<Rightarrow> string list \<Rightarrow> streaked list" where
  "streak_loop df [] counts qualities = df"
| "streak_loop df (ix # idx) counts qualities =
     (let q = weather_quality (df ! ix);
          counts = count_step counts q;
          df = df[ix := (df ! ix)\<lparr>nice_streak := fst counts, bad_streak := snd counts\<rparr>];
          df = (if length qualities \<ge> 1
                then df[ix := (df ! ix)\<lparr>prev_day_quality := Some (last qualities)\<rparr>]
                else df);
          df = (if length qualities \<ge> 2
                then df[ix := (df ! ix)\<lparr>prev_2day_quality :=
                                          Some (qualities ! (length qualities - 2))\<rparr>]
                else df)
      in streak_loop df idx counts (qualities @ [q]))"

text \<open>The columns \<^verbatim>\<open>build_streaks\<close> adds before its loop.\<close>

definition init_row :: "merged \<Rightarrow> streaked" where
  "init_row r =
     merged.extend r (streaked.fields (classify_day_weather (weather r)) 0 0 None None)"

definition build_streaks :: "merged list \<Rightarrow> streaked list" where
  "build_streaks df =
     (let df = map init_row df
      in foldl (\<lambda>df y. streak_loop df (mask_index year df y) (0, 0) [])
               df (unique (map year df)))"

text \<open>
  The momentum script: \<^verbatim>\<open>build_streaks(normalize_leads(load_data()))\<close>. \<^verbatim>\<open>normalize_leads\<close>
  adds baseline columns by a left merge on a unique key; it keeps the rows, their order
  and every column read here, and is left out.
\<close>

definition momentum_table :: "merged list \<Rightarrow> streaked list" where
  "momentum_table csv = build_streaks (load_data csv)"

subsection \<open>What one pass of the loop writes\<close>

text \<open>
  The row the loop leaves at a position, in terms of the counters and the qualities
  seen before it: \<open>tag\<close> for the loop's own state, \<open>tagged\<close> for a row of the input table
  and the rows of the same year that precede it.
\<close>

definition tag :: "streaked \<Rightarrow> int \<times> int \<Rightarrow> string list \<Rightarrow> streaked" where
  "tag r counts qs =
     (let c = count_step counts (weather_quality r) in
      r\<lparr>nice_streak := fst c, bad_streak := snd c,
        prev_day_quality := (if qs = [] then prev_day_quality r else Some (last qs)),
        prev_2day_quality := (if length qs \<ge> 2 then Some (qs ! (length qs - 2))
                              else prev_2day_quality r)\<rparr>)"

definition tagged :: "merged list \<Rightarrow> merged \<Rightarrow> streaked" where
  "tagged prev r =
     (let qs = map (\<lambda>p. classify_day_weather (weather p)) prev
      in tag (init_row r) (foldl count_step (0, 0) qs) qs)"

text \<open>The rows of one year, in table order.\<close>

definition season :: "int \<Rightarrow> 'a lead_day_scheme list \<Rightarrow> 'a lead_day_scheme list" where
  "season y df = filter (\<lambda>r. year r = y) df"

text \<open>
  A sample row for the worked examples: date, year, weekday, leads, and the three
  weather cells maximum temperature, sunshine hours and snowfall; the other cells are NaN.
\<close>

definition sample_day ::
  "int \<Rightarrow> int \<Rightarrow> int \<Rightarrow> int \<Rightarrow> pyval \<Rightarrow> pyval \<Rightarrow> pyval \<Rightarrow> merged" where
  "sample_day d y w n t sun snow =
     \<lparr>date = d, year = y, month = 3, dow = w, week_num = 10, day_of_season = d,
      is_weekend = (w = 5 \<or> w = 6), is_saturday = (w = 5),
      total_leads = n, dm_leads = 0, organic_leads = n,
      weather = \<lparr>snowfall_in = Some snow, precip_in = Some NaN, rain_in = Some NaN,
                 sunshine_hrs = Some sun, temp_max = Some t, snow_depth = Some NaN,
                 temp_mean = Some NaN, wind_max_mph = Some NaN\<rparr>\<rparr>"

section \<open>Error metrics\<close>

text \<open>
  numpy's elementwise division raises nothing: a zero denominator yields an infinity or
  NaN (and a warning, which the scripts silence). \<open>None\<close> stands for that outcome.
\<close>

definition np_divide :: "real \<Rightarrow> real \<Rightarrow> real option" where
  "np_divide a b = (if b = 0 then None else Some (a / b))"

definition mape_denominators :: "int list \<Rightarrow> int list" where
  "mape_denominators y = map (\<lambda>a. max a 1) y"

definition ape_terms :: "int list \<Rightarrow> real list \<Rightarrow> real option list" where
  "ape_terms y y_pred =
     map (\<lambda>((a, p), m). map_option abs (np_divide (real_of_int a - p) (real_of_int m)))
         (zip (zip y y_pred) (mape_denominators y))"

text \<open>\<^verbatim>\<open>np.mean\<close>: a non-finite term makes the mean non-finite, and so does an empty array.\<close>

fun all_finite :: "real option list \<Rightarrow> real list option" where
  "all_finite [] = Some []"
| "all_finite (None # ts) = None"
| "all_finite (Some t # ts) = map_option ((#) t) (all_finite ts)"

definition np_mean :: "real option list \<Rightarrow> real option" where
  "np_mean ts =
     (case all_finite ts of None \<Rightarrow> None
      | Some vs \<Rightarrow> np_divide (sum_list vs) (real (length vs)))"

definition mape :: "int list \<Rightarrow> real list \<Rightarrow> real option" where
  "mape y y_pred = map_option (\<lambda>m. m * 100) (np_mean (ape_terms y y_pred))"


section \<open>Feature engineering\<close>

record featured = merged +
  is_snow :: int
  is_rainy :: int
  is_sunny :: int
  year_trend :: int
  temp_max_3d_avg :: "real option"
  sunshine_3d_avg :: "real option"

text \<open>
  A numeric column of the table is a float column: \<open>observed\<close> reads a cell as a number
  or as NaN (\<open>None\<close>). \<^verbatim>\<open>fillna(0)\<close> on a cell:
\<close>

definition fillna0 :: "pyval option \<Rightarrow> real" where
  "fillna0 c = with_default 0 (observed c)"

text \<open>
  The flag and trend columns. The two rolling columns do not exist before the loop;
  the first masked assignment creates them, NaN in the rows it does not cover.
\<close>

definition feature_columns :: "merged \<Rightarrow> featured" where
  "feature_columns r =
     merged.extend r
       (featured.fields
          (if fillna0 (snowfall_in (weather r)) > 5/100 \<or> fillna0 (snow_depth (weather r)) > 5/10
           then 1 else 0)
          (if fillna0 (rain_in (weather r)) > 1/10 then 1 else 0)
          (if fillna0 (sunshine_hrs (weather r)) \<ge> 8 then 1 else 0)
          (year r - 2021)
          None None)"

text \<open>
  Modelled from the spec: \<^verbatim>\<open>Series.rolling(3, min_periods=1).mean()\<close> is pandas, not part
  of the repository. The window of a position is the position and up to two positions
  before it; NaN cells are skipped; the mean is NaN when the window holds no observation.
\<close>

definition window_mean :: "real option list \<Rightarrow> real option" where
  "window_mean w =
     (let vs = map the (filter (\<lambda>v. v \<noteq> None) w)
      in if length vs \<ge> 1 then Some (sum_list vs / real (length vs)) else None)"

definition rolling_mean :: "real option list \<Rightarrow> real option list" where
  "rolling_mean xs =
     map (\<lambda>k. window_mean (drop (Suc k - 3) (take (Suc k) xs))) [0..<length xs]"

text \<open>\<^verbatim>\<open>df.loc[mask, column] = values\<close>: the values go to the masked positions, in order.\<close>

fun assign :: "'r list \<Rightarrow> nat list \<Rightarrow> 'v list \<Rightarrow> ('v \<Rightarrow> 'r \<Rightarrow> 'r) \<Rightarrow> 'r list" where
  "assign df [] vs f = df"
| "assign df (i # idx) [] f = df"
| "assign df (i # idx) (v # vs) f = assign (df[i := f v (df ! i)]) idx vs f"

text \<open>The body of the loop over the years, for the positions \<^verbatim>\<open>idx\<close> of one year.\<close>

definition roll_year :: "featured list \<Rightarrow> nat list \<Rightarrow> featured list" where
  "roll_year df idx =
     (let df = assign df idx
                 (rolling_mean (map (\<lambda>i. observed (temp_max (weather (df ! i)))) idx))
                 (\<lambda>v r. r\<lparr>temp_max_3d_avg := v\<rparr>)
      in assign df idx
           (rolling_mean (map (\<lambda>i. observed (sunshine_hrs (weather (df ! i)))) idx))
           (\<lambda>v r. r\<lparr>sunshine_3d_avg := v\<rparr>))"

text \<open>
  \<open>engineer_features\<close>, the same in \<^verbatim>\<open>lawn_lead_prediction.py\<close> and
  \<^verbatim>\<open>model_validation.py\<close>.
\<close>

definition engineer_features :: "merged list \<Rightarrow> featured list" where
  "engineer_features df =
     (let df = map feature_columns df;
          df = sort_key date df
      in foldl (\<lambda>df y. roll_year df (mask_index year df y)) df (unique (map year df)))"

subsection \<open>What the loop writes\<close>

definition trailing3 :: "'a list \<Rightarrow> 'a list" where
  "trailing3 zs = drop (length zs - 3) zs"

definition rolled :: "featured list \<Rightarrow> featured \<Rightarrow> featured" where
  "rolled prev r =
     r\<lparr>temp_max_3d_avg :=
         window_mean (trailing3 (map (\<lambda>p. observed (temp_max (weather p))) (prev @ [r]))),
       sunshine_3d_avg :=
         window_mean (trailing3 (map (\<lambda>p. observed (sunshine_hrs (weather p))) (prev @ [r])))\<rparr>"

definition engineered :: "merged list \<Rightarrow> merged \<Rightarrow> featured" where
  "engineered prev r = rolled (map feature_columns prev) (feature_columns r)"

section \<open>Training and evaluation\<close>

datatype error = ValueError | KeyError

type_synonym fvec = "real list"

text \<open>
  The regressor is scikit-learn's \<^verbatim>\<open>GradientBoostingRegressor\<close> with fixed parameters and
  a fixed \<^verbatim>\<open>random_state\<close>: \<^verbatim>\<open>fit\<close> followed by \<^verbatim>\<open>predict\<close> is a function of the training
  sample, a parameter of the model.
\<close>

type_synonym estimator = "(fvec \<times> int) list \<Rightarrow> fvec \<Rightarrow> real"

definition flag :: "bool \<Rightarrow> real" where
  "flag b = (if b then 1 else 0)"

text \<open>\<^verbatim>\<open>df[feature_cols].fillna(0)\<close>, one row.\<close>

definition feature_vector :: "featured \<Rightarrow> fvec" where
  "feature_vector r =
     [real_of_int (dow r), flag (is_weekend r), flag (is_saturday r),
      real_of_int (day_of_season r), real_of_int (week_num r), real_of_int (month r),
      fillna0 (temp_max (weather r)), fillna0 (temp_mean (weather r)),
      fillna0 (sunshine_hrs (weather r)), fillna0 (precip_in (weather r)),
      fillna0 (snowfall_in (weather r)), fillna0 (wind_max_mph (weather r)),
      real_of_int (is_snow r), real_of_int (is_rainy r), real_of_int (is_sunny r),
      with_default 0 (temp_max_3d_avg r), with_default 0 (sunshine_3d_avg r),
      real_of_int (year_trend r)]"

text \<open>\<^verbatim>\<open>dropna(subset=['temp_max', 'sunshine_hrs'])\<close>.\<close>

definition has_weather :: "'a merged_scheme \<Rightarrow> bool" where
  "has_weather r \<longleftrightarrow> observed (temp_max (weather r)) \<noteq> None
                     \<and> observed (sunshine_hrs (weather r)) \<noteq> None"

text \<open>The table \<^verbatim>\<open>build_prediction_model\<close> trains on, rows in the order it passes them on.\<close>

definition training_table :: "merged list \<Rightarrow> featured list" where
  "training_table dw =
     (let full_years = filter (\<lambda>r. year r \<in> {2021, 2022, 2023, 2024, 2025}) dw;
          full_years = engineer_features full_years
      in filter has_weather full_years)"

text \<open>
  Modelled from the spec: \<^verbatim>\<open>TimeSeriesSplit(n_splits)\<close> is scikit-learn, not part of the
  repository. Over \<open>n\<close> samples it yields \<open>n_splits\<close> folds (train positions, test
  positions): the test blocks are the last \<open>n_splits\<close> blocks of \<open>n div (n_splits + 1)\<close>
  positions, each trained on all positions before it; it raises \<^verbatim>\<open>ValueError\<close> when there
  are fewer samples than \<open>n_splits + 1\<close>.
\<close>

definition time_series_split :: "nat \<Rightarrow> nat \<Rightarrow> error + (nat list \<times> nat list) list" where
  "time_series_split n_splits n =
     (let n_folds = n_splits + 1;
          test_size = n div n_folds
      in if n_folds > n then Inl ValueError
         else if n - test_size * n_splits \<le> 0 then Inl ValueError
         else Inr (map (\<lambda>k. let test_start = n - n_splits * test_size + k * test_size
                              in ([0..<test_start], [test_start..<test_start + test_size]))
                       [0..<n_splits]))"

definition mean_absolute_error :: "int list \<Rightarrow> real list \<Rightarrow> real" where
  "mean_absolute_error y y_pred =
     sum_list (map (\<lambda>(a, p). \<bar>real_of_int a - p\<bar>) (zip y y_pred)) / real (length y)"

definition mean_squared_error :: "int list \<Rightarrow> real list \<Rightarrow> real" where
  "mean_squared_error y y_pred =
     sum_list (map (\<lambda>(a, p). (real_of_int a - p)\<^sup>2) (zip y y_pred)) / real (length y)"

text \<open>\<^verbatim>\<open>r2_score\<close>: a constant target gives 1 for a perfect fit and 0 otherwise.\<close>

definition r2_score :: "int list \<Rightarrow> real list \<Rightarrow> real" where
  "r2_score y y_pred =
     (let m = sum_list (map real_of_int y) / real (length y);
          ss_res = sum_list (map (\<lambda>(a, p). (real_of_int a - p)\<^sup>2) (zip y y_pred));
          ss_tot = sum_list (map (\<lambda>a. (real_of_int a - m)\<^sup>2) y)
      in if ss_tot = 0 then (if ss_res = 0 then 1 else 0) else 1 - ss_res / ss_tot)"

record metrics =
  mae :: real
  rmse :: real
  r2 :: real
  mape_pct :: "real option"
  cv_mae :: real

definition train_and_evaluate ::
  "estimator \<Rightarrow> fvec list \<Rightarrow> int list \<Rightarrow> error + (fvec \<Rightarrow> real) \<times> metrics" where
  "train_and_evaluate fit X y =
     (case time_series_split 5 (length X) of
        Inl e \<Rightarrow> Inl e
      | Inr folds \<Rightarrow>
          (let cv_scores =
                 map (\<lambda>(train, test).
                        - mean_absolute_error (map ((!) y) test)
                            (map (fit (map (\<lambda>i. (X ! i, y ! i)) train)) (map ((!) X) test)))
                     folds;
               model = fit (zip X y);
               y_pred = map model X
           in Inr (model,
                   \<lparr>mae = mean_absolute_error y y_pred,
                    rmse = sqrt (mean_squared_error y y_pred),
                    r2 = r2_score y y_pred,
                    mape_pct = mape y y_pred,
                    cv_mae = - (sum_list cv_scores / real (length cv_scores))\<rparr>)))"

definition build_prediction_model ::
  "estimator \<Rightarrow> merged list \<Rightarrow> error + (fvec \<Rightarrow> real) \<times> metrics" where
  "build_prediction_model fit daily_weather =
     (let full_years = training_table daily_weather
      in train_and_evaluate fit (map feature_vector full_years) (map total_leads full_years))"

section \<open>Holdout validation\<close>

text \<open>
  A group of test rows with their predictions, and the aggregates the script takes over
  it. A group is never empty. \<open>error_pct\<close> is \<^verbatim>\<open>(predicted / actual - 1) * 100\<close>, non-finite
  (\<open>None\<close>) when the actual figure is 0.
\<close>

type_synonym scored = "featured \<times> real"

definition actual_total :: "scored list \<Rightarrow> int" where
  "actual_total g = sum_list (map (\<lambda>(r, p). total_leads r) g)"

definition predicted_total :: "scored list \<Rightarrow> real" where
  "predicted_total g = sum_list (map (\<lambda>(r, p). p) g)"

definition avg_actual :: "scored list \<Rightarrow> real" where
  "avg_actual g = real_of_int (actual_total g) / real (length g)"

definition avg_predicted :: "scored list \<Rightarrow> real" where
  "avg_predicted g = predicted_total g / real (length g)"

definition abs_error_mean :: "scored list \<Rightarrow> real" where
  "abs_error_mean g =
     sum_list (map (\<lambda>(r, p). \<bar>p - real_of_int (total_leads r)\<bar>) g) / real (length g)"

definition error_pct :: "real \<Rightarrow> real \<Rightarrow> real option" where
  "error_pct predicted actual = map_option (\<lambda>q. (q - 1) * 100) (np_divide predicted actual)"

text \<open>\<^verbatim>\<open>groupby(key)\<close>: the groups by ascending key.\<close>

definition groupby :: "(scored \<Rightarrow> int) \<Rightarrow> scored list \<Rightarrow> (int \<times> scored list) list" where
  "groupby key rows =
     map (\<lambda>k. (k, filter (\<lambda>x. key x = k) rows)) (sort (remdups (map key rows)))"

text \<open>
  The groups by weather quality, in the order of the labels; \<open>classify_day_weather\<close> has
  no other label.
\<close>

definition groupby_quality :: "scored list \<Rightarrow> (string \<times> scored list) list" where
  "groupby_quality rows =
     filter (\<lambda>(q, g). g \<noteq> [])
       (map (\<lambda>q. (q, filter (\<lambda>(r, p). classify_day_weather (weather r) = q) rows))
            [''bad'', ''nice'', ''ok''])"

record holdout_report =
  holdout_mae :: real
  holdout_r2 :: real
  holdout_mape :: "real option"
  total_actual :: int
  total_predicted :: real
  total_error_pct :: "real option"
  weekly :: "(int \<times> int \<times> real \<times> real \<times> nat \<times> real option) list"
  dow_acc :: "(int \<times> real \<times> real \<times> real \<times> real option) list"
  cond_acc :: "(string \<times> real \<times> real \<times> real \<times> nat \<times> real option) list"

text \<open>
  The table \<^verbatim>\<open>run_holdout_validation\<close> works on, and its training and test partitions.
\<close>

definition holdout_split :: "merged list \<Rightarrow> featured list \<times> featured list \<times> featured list" where
  "holdout_split csv =
     (let df = filter (\<lambda>r. year r \<in> {2021, 2022, 2023, 2024, 2025}) csv;
          df = filter has_weather df;
          df = engineer_features df;
          train = filter (\<lambda>r. year r \<in> {2021, 2022, 2023, 2024}) df;
          test = filter (\<lambda>r. year r = 2025) df
      in (df, train, test))"

text \<open>
  The first half of \<^verbatim>\<open>run_holdout_validation\<close>: the fitted model and the figures of the
  2025 holdout, unrounded. With no row left the rolling columns are never created and
  selecting the feature columns raises \<^verbatim>\<open>KeyError\<close>; fitting on, or predicting for, no
  sample raises \<^verbatim>\<open>ValueError\<close>.
\<close>

definition holdout_test ::
  "estimator \<Rightarrow> merged list \<Rightarrow> error + (fvec \<Rightarrow> real) \<times> holdout_report" where
  "holdout_test fit csv =
     (let (df, train, test) = holdout_split csv
      in if df = [] then Inl KeyError
         else if train = [] then Inl ValueError
         else if test = [] then Inl ValueError
         else
           (let model = fit (zip (map feature_vector train) (map total_leads train));
                y_test = map total_leads test;
                y_pred = map model (map feature_vector test);
                test_with_pred = zip test y_pred
            in Inr (model,
                 \<lparr>holdout_mae = mean_absolute_error y_test y_pred,
                  holdout_r2 = r2_score y_test y_pred,
                  holdout_mape = mape y_test y_pred,
                  total_actual = sum_list y_test,
                  total_predicted = sum_list y_pred,
                  total_error_pct = error_pct (sum_list y_pred) (real_of_int (sum_list y_test)),
                  weekly = map (\<lambda>(w, g). (w, actual_total g, predicted_total g, abs_error_mean g,
                                  length g,
                                  error_pct (predicted_total g) (real_of_int (actual_total g))))
                               (groupby (\<lambda>(r, p). week_num r) test_with_pred),
                  dow_acc = map (\<lambda>(d, g). (d, avg_actual g, avg_predicted g, abs_error_mean g,
                                  error_pct (avg_predicted g) (avg_actual g)))
                                (groupby (\<lambda>(r, p). dow r) test_with_pred),
                  cond_acc = map (\<lambda>(q, g). (q, avg_actual g, avg_predicted g, abs_error_mean g,
                                  length g, error_pct (avg_predicted g) (avg_actual g)))
                                 (groupby_quality test_with_pred)\<rparr>)))"

text \<open>
  The second half: the early-season check of 2026, read again from the file and only
  printed: days with data, total actual, total predicted, error in percent, daily MAE.
\<close>

definition early_season_check ::
  "(fvec \<Rightarrow> real) \<Rightarrow> merged list \<Rightarrow> (nat \<times> int \<times> real \<times> real option \<times> real) option" where
  "early_season_check model csv =
     (let df_2026 = filter (\<lambda>r. year r = 2026) csv
      in if df_2026 = [] then None
         else
           (let df_2026 = filter has_weather df_2026;
                df_2026 = engineer_features df_2026
            in if df_2026 = [] then None
               else
                 (let pred_2026 = map model (map feature_vector df_2026);
                      actual_2026 = map total_leads df_2026
                  in Some (length df_2026, sum_list actual_2026, sum_list pred_2026,
                           error_pct (sum_list pred_2026) (real_of_int (sum_list actual_2026)),
                           mean_absolute_error actual_2026 pred_2026))))"

definition run_holdout_validation ::
  "estimator \<Rightarrow> merged list
   \<Rightarrow> error + holdout_report \<times> (nat \<times> int \<times> real \<times> real option \<times> real) option" where
  "run_holdout_validation fit csv =
     (case holdout_test fit csv of
        Inl e \<Rightarrow> Inl e
      | Inr (model, report) \<Rightarrow> Inr (report, early_season_check model csv))"

text \<open>A regressor for the worked examples: it predicts the mean target of its training sample.\<close>

definition mean_regressor :: estimator where
  "mean_regressor sample x = real_of_int (sum_list (map snd sample)) / real (length sample)"

section \<open>Seasonal projection\<close>

definition full_years :: "'a lead_day_scheme list \<Rightarrow> 'a lead_day_scheme list" where
  "full_years dw = filter (\<lambda>r. year r \<in> {2021, 2022, 2023, 2024, 2025}) dw"

text \<open>
  pandas' \<^verbatim>\<open>std\<close> is the sample standard deviation: NaN for fewer than two values. Its
  \<^verbatim>\<open>mean\<close> skips NaN cells and is NaN when there is no observation, as \<open>window_mean\<close> does.
\<close>

definition sample_std :: "real list \<Rightarrow> real option" where
  "sample_std xs =
     (let n = length xs; m = sum_list xs / real n
      in if n < 2 then None
         else Some (sqrt (sum_list (map (\<lambda>x. (x - m)\<^sup>2) xs) / real (n - 1))))"

text \<open>
  A row of \<^verbatim>\<open>avg_by_day\<close>, with the columns the projection reads (the median and the
  organic columns go to the chart only).
\<close>

record avg_row =
  avg_day :: int
  avg_temp_max :: "real option"
  avg_temp_mean :: "real option"
  avg_sunshine :: "real option"
  avg_precip :: "real option"
  avg_snow :: "real option"
  avg_wind :: "real option"
  avg_leads :: real
  std_leads :: "real option"

definition avg_by_day :: "merged list \<Rightarrow> avg_row list" where
  "avg_by_day df =
     map (\<lambda>d. let g = filter (\<lambda>r. day_of_season r = d) df
              in \<lparr>avg_day = d,
                  avg_temp_max = window_mean (map (\<lambda>r. observed (temp_max (weather r))) g),
                  avg_temp_mean = window_mean (map (\<lambda>r. observed (temp_mean (weather r))) g),
                  avg_sunshine = window_mean (map (\<lambda>r. observed (sunshine_hrs (weather r))) g),
                  avg_precip = window_mean (map (\<lambda>r. observed (precip_in (weather r))) g),
                  avg_snow = window_mean (map (\<lambda>r. observed (snowfall_in (weather r))) g),
                  avg_wind = window_mean (map (\<lambda>r. observed (wind_max_mph (weather r))) g),
                  avg_leads = real_of_int (sum_list (map total_leads g)) / real (length g),
                  std_leads = sample_std (map (\<lambda>r. real_of_int (total_leads r)) g)\<rparr>)
         (sort (remdups (map day_of_season df)))"

text \<open>Comparisons of a possibly-NaN average with a threshold.\<close>

definition nan_gt :: "real option \<Rightarrow> real \<Rightarrow> bool" where
  "nan_gt a t = (case a of None \<Rightarrow> False | Some x \<Rightarrow> x > t)"

definition nan_ge :: "real option \<Rightarrow> real \<Rightarrow> bool" where
  "nan_ge a t = (case a of None \<Rightarrow> False | Some x \<Rightarrow> x \<ge> t)"

text \<open>
  The dictionary \<^verbatim>\<open>feature_row\<close> of one day-of-season average and one weekday.
  \<open>feb15_2025\<close> is the day number of 2025-02-15; week and month are read off the calendar.
\<close>

definition feature_row :: "calendar \<Rightarrow> int \<Rightarrow> avg_row \<Rightarrow> int \<Rightarrow> (string \<times> real option) list" where
  "feature_row cal feb15_2025 row dow_val =
     (let dos = avg_day row;
          base_date = feb15_2025 + dos;
          week = cal_week cal base_date;
          month_val = cal_month cal base_date;
          is_wknd = (if dow_val \<ge> 5 then 1 else 0);
          is_sat = (if dow_val = 5 then 1 else 0)
      in [(''dow'', Some (real_of_int dow_val)),
          (''is_weekend'', Some is_wknd),
          (''is_saturday'', Some is_sat),
          (''day_of_season'', Some (real_of_int dos)),
          (''week_num'', Some (real_of_int week)),
          (''month'', Some (real_of_int month_val)),
          (''temp_max'', avg_temp_max row),
          (''temp_mean'', avg_temp_mean row),
          (''sunshine_hrs'', avg_sunshine row),
          (''precip_in'', avg_precip row),
          (''snowfall_in'', avg_snow row),
          (''wind_max_mph'', avg_wind row),
          (''is_snow'', Some (if nan_gt (avg_snow row) (5/100) then 1 else 0)),
          (''is_rainy'', Some (if nan_gt (avg_precip row) (1/10) then 1 else 0)),
          (''is_sunny'', Some (if nan_ge (avg_sunshine row) 8 then 1 else 0)),
          (''temp_max_3d_avg'', avg_temp_max row),
          (''sunshine_3d_avg'', avg_sunshine row),
          (''year_trend'', Some 4)])"

text \<open>\<^verbatim>\<open>pd.DataFrame([available])[features]\<close>: a missing column raises \<^verbatim>\<open>KeyError\<close>.\<close>

fun select_columns :: "(string \<times> 'v) list \<Rightarrow> string list \<Rightarrow> error + 'v list" where
  "select_columns row [] = Inr []"
| "select_columns row (c # cs) =
     (case map_of row c of
        None \<Rightarrow> Inl KeyError
      | Some v \<Rightarrow> (case select_columns row cs of Inl e \<Rightarrow> Inl e | Inr vs \<Rightarrow> Inr (v # vs)))"

text \<open>\<^verbatim>\<open>round(x, 1)\<close> of a numpy float: half to even on the tenths.\<close>

definition rint :: "real \<Rightarrow> int" where
  "rint x =
     (let f = \<lfloor>x\<rfloor>; d = x - of_int f
      in if d < 1/2 then f else if d > 1/2 then f + 1 else if even f then f else f + 1)"

definition round1 :: "real \<Rightarrow> real" where
  "round1 x = of_int (rint (x * 10)) / 10"

record projection_row =
  proj_day_of_season :: int
  proj_dow :: int
  dow_name :: string
  predicted_leads :: real
  historical_avg :: real
  historical_std :: real

text \<open>
  The body of the two loops. The fitted model is a parameter: its prediction for one
  row of cells, or the error it raises (scikit-learn refuses NaN input).
\<close>

definition project_day ::
  "(real option list \<Rightarrow> error + real) \<Rightarrow> calendar \<Rightarrow> int \<Rightarrow> string list \<Rightarrow> avg_row \<Rightarrow> int
   \<Rightarrow> error + projection_row" where
  "project_day predict cal feb15_2025 features row dow_val =
     (let available = filter (\<lambda>(k, v). k \<in> set features) (feature_row cal feb15_2025 row dow_val)
      in case select_columns available features of
           Inl e \<Rightarrow> Inl e
         | Inr X_pred \<Rightarrow>
             (case predict X_pred of
                Inl e \<Rightarrow> Inl e
              | Inr pred \<Rightarrow>
                  Inr \<lparr>proj_day_of_season = avg_day row,
                       proj_dow = dow_val,
                       dow_name = [''Mon'', ''Tue'', ''Wed'', ''Thu'', ''Fri'', ''Sat'', ''Sun'']
                                    ! nat dow_val,
                       predicted_leads = round1 pred,
                       historical_avg = round1 (avg_leads row),
                       historical_std = (case std_leads row of None \<Rightarrow> 0
                                         | Some sd \<Rightarrow> round1 sd)\<rparr>))"

text \<open>Running the loop bodies in order; the first error ends the run.\<close>

fun sequence :: "(error + 'a) list \<Rightarrow> error + 'a list" where
  "sequence [] = Inr []"
| "sequence (Inl e # xs) = Inl e"
| "sequence (Inr x # xs) = (case sequence xs of Inl e \<Rightarrow> Inl e | Inr ys \<Rightarrow> Inr (x # ys))"

definition build_seasonal_projection ::
  "(real option list \<Rightarrow> error + real) \<Rightarrow> calendar \<Rightarrow> int \<Rightarrow> merged list \<Rightarrow> string list
   \<Rightarrow> error + projection_row list" where
  "build_seasonal_projection predict cal feb15_2025 daily_weather features =
     sequence
       (concat (map (\<lambda>row. map (project_day predict cal feb15_2025 features row) [0..6])
                    (avg_by_day (full_years daily_weather))))"

text \<open>
  The specification's reading of the trend of a projected row: the \<open>year_trend\<close>
  (year minus 2021) of the most recent year observed in the historical rows.
\<close>

definition most_recent_year_trend :: "merged list \<Rightarrow> int option" where
  "most_recent_year_trend df =
     (case map year df of [] \<Rightarrow> None | y # ys \<Rightarrow> Some (fold max ys y - 2021))"

text \<open>The feature list of \<^verbatim>\<open>build_prediction_model\<close>, and a sample calendar.\<close>

definition feature_cols :: "string list" where
  "feature_cols =
     [''dow'', ''is_weekend'', ''is_saturday'', ''day_of_season'', ''week_num'', ''month'',
      ''temp_max'', ''temp_mean'', ''sunshine_hrs'', ''precip_in'', ''snowfall_in'',
      ''wind_max_mph'', ''is_snow'', ''is_rainy'', ''is_sunny'', ''temp_max_3d_avg'',
      ''sunshine_3d_avg'', ''year_trend'']"

definition sample_calendar :: calendar where
  "sample_calendar =
     \<lparr>cal_year = (\<lambda>d. 2025), cal_month = (\<lambda>d. 2), cal_dow = (\<lambda>d. d mod 7),
      cal_week = (\<lambda>d. 7 + d div 7), cal_feb15 = (\<lambda>d. 0)\<rparr>"

section \<open>Classifier theorems\<close>

lemma gt_get_or:
  "0 \<le> t \<Longrightarrow> gt (get_or c 0) t \<longleftrightarrow> with_default 0 (observed c) > t"
  by (cases c rule: observed.cases) (auto simp: with_default_def)

lemma ge_get_or:
  "0 < t \<Longrightarrow> ge (get_or c 0) t \<longleftrightarrow> with_default 0 (observed c) \<ge> t"
  by (cases c rule: observed.cases) (auto simp: with_default_def)

text \<open>
  Claim C1. For every weather row the coarse classifier returns the label of the
  specification's six-rule priority list, evaluated in order on the fields with a
  missing field read as 0. With no snow, rain of exactly 0.25 in gives "Light Rain" and
  any rain above 0.25 in gives "Rain".
\<close>

theorem classify_weather_condition_priority:
  "classify_weather_condition row = spec_classify_condition row
   \<and> (no_snow row \<and> rain_in row = Some (Num (25/100))
        \<longrightarrow> classify_weather_condition row = ''Light Rain'')
   \<and> (no_snow row \<and> rain_in row = Some (Num r) \<and> r > 25/100
        \<longrightarrow> classify_weather_condition row = ''Rain'')"
proof -
  have eq: "classify_weather_condition row = spec_classify_condition row"
    unfolding classify_weather_condition_def spec_classify_condition_def spec_condition_def Let_def
    by (simp add: gt_get_or ge_get_or)
  have light: "classify_weather_condition row = ''Light Rain''"
    if "no_snow row" "rain_in row = Some (Num (25/100))"
    using that unfolding eq spec_classify_condition_def spec_condition_def no_snow_def
    by (simp add: with_default_def)
  have rain: "classify_weather_condition row = ''Rain''"
    if "no_snow row" "rain_in row = Some (Num r)" "r > 25/100"
    using that unfolding eq spec_classify_condition_def spec_condition_def no_snow_def
    by (simp add: with_default_def)
  from eq light rain show ?thesis by blast
qed

theorem classify_weather_condition_priority_witness:
  "classify_weather_condition
     \<lparr>snowfall_in = Some NaN, precip_in = None, rain_in = Some (Num (25/100)),
      sunshine_hrs = Some (Num 9), temp_max = Some (Num 60), snow_depth = Some PyNone,
      temp_mean = None, wind_max_mph = None\<rparr>
     = ''Light Rain''
   \<and> classify_weather_condition
     \<lparr>snowfall_in = Some NaN, precip_in = None, rain_in = Some (Num (26/100)),
      sunshine_hrs = Some (Num 9), temp_max = Some (Num 60), snow_depth = Some PyNone,
      temp_mean = None, wind_max_mph = None\<rparr>
     = ''Rain''"
proof -
  let ?a = "\<lparr>snowfall_in = Some NaN, precip_in = None, rain_in = Some (Num (25/100)),
      sunshine_hrs = Some (Num 9), temp_max = Some (Num 60), snow_depth = Some PyNone,
      temp_mean = None, wind_max_mph = None\<rparr>"
  let ?b = "\<lparr>snowfall_in = Some NaN, precip_in = None, rain_in = Some (Num (26/100)),
      sunshine_hrs = Some (Num 9), temp_max = Some (Num 60), snow_depth = Some PyNone,
      temp_mean = None, wind_max_mph = None\<rparr>"
  have ha: "no_snow ?a \<and> rain_in ?a = Some (Num (25/100))"
    by (simp add: no_snow_def with_default_def)
  have hb: "no_snow ?b \<and> rain_in ?b = Some (Num (26/100)) \<and> (26/100 :: real) > 25/100"
    by (simp add: no_snow_def with_default_def)
  from classify_weather_condition_priority [of ?a 0] ha
  have "classify_weather_condition ?a = ''Light Rain''" by blast
  moreover from classify_weather_condition_priority [of ?b "26/100"] hb
  have "classify_weather_condition ?b = ''Rain''" by blast
  ultimately show ?thesis by blast
qed

text \<open>
  Claim C3, evaluated at a row read from the merged table in which only the maximum
  temperature (60 degrees) was observed, every other cell being the NaN of an empty cell:
  NaN is truthy, so \<^verbatim>\<open>or 0\<close> keeps it, the test \<^verbatim>\<open>sunshine < 3\<close> is false, and the quality
  classifier answers "ok". The coarse classifier answers "Cloudy/Overcast" on the same
  row, and the quality classifier answers "bad" once the cells hold \<^verbatim>\<open>None\<close> or are absent.
\<close>

theorem classify_day_weather_nan_row:
  "classify_day_weather (only_temp_max 60 (Some NaN)) = ''ok''
   \<and> classify_weather_condition (only_temp_max 60 (Some NaN)) = ''Cloudy/Overcast''
   \<and> classify_day_weather (only_temp_max 60 (Some PyNone)) = ''bad''
   \<and> classify_day_weather (only_temp_max 60 None) = ''bad''"
  by (simp add: classify_day_weather_def classify_weather_condition_def only_temp_max_def)

section \<open>Aggregation theorems\<close>

lemma map_of_groupby_size:
  "map_of (groupby_size df) d =
     (if d \<in> fst ` set df then Some (int (length (filter (\<lambda>l. fst l = d) df))) else None)"
proof -
  have "map_of (map (\<lambda>k. (k, f k)) ks) d = (if d \<in> set ks then Some (f d) else None)"
    for f :: "int \<Rightarrow> int" and ks
    by (induction ks) auto
  then show ?thesis by (simp add: groupby_size_def)
qed

lemma merged_count_groupby:
  "merged_count (groupby_size df) d = int (length (filter (\<lambda>l. fst l = d) df))"
proof (cases "d \<in> fst ` set df")
  case True
  then show ?thesis by (simp add: merged_count_def map_of_groupby_size)
next
  case False
  then have "filter (\<lambda>l. fst l = d) df = []"
    by (auto simp: filter_empty_conv)
  with False show ?thesis by (simp add: merged_count_def map_of_groupby_size)
qed

lemma classify_source_two_classes:
  "classify_source s = ''Direct Mail'' \<or> classify_source s = ''Organic/Digital''"
  by (simp add: classify_source_def Let_def)

lemma classify_source_exclusive:
  "(classify_source s = ''Organic/Digital'') = (classify_source s \<noteq> ''Direct Mail'')"
  by (simp add: classify_source_def Let_def)

text \<open>
  Claim C9. In every row that \<open>aggregate_daily\<close> produces, the direct-mail count and the
  organic count add up to the total: \<open>classify_source\<close> puts every source string in
  exactly one of the two classes.
\<close>

theorem aggregate_daily_segments_sum:
  "\<forall>r \<in> set (aggregate_daily cal df). dm_leads r + organic_leads r = total_leads r"
proof
  fix r assume "r \<in> set (aggregate_daily cal df)"
  define typed where "typed = map (\<lambda>(d, source). (d, classify_source source)) df"
  from \<open>r \<in> set (aggregate_daily cal df)\<close>
  obtain d n where dn: "(d, n) \<in> set (groupby_size typed)"
    and dm: "dm_leads r = merged_count (groupby_size (filter (\<lambda>l. snd l = ''Direct Mail'') typed)) d"
    and org: "organic_leads r
              = merged_count (groupby_size (filter (\<lambda>l. snd l = ''Organic/Digital'') typed)) d"
    and tot: "total_leads r = n"
    by (auto simp: aggregate_daily_def Let_def typed_def)
  from dn have n: "n = int (length (filter (\<lambda>l. fst l = d) typed))"
    by (auto simp: groupby_size_def)
  have cls: "(snd l = ''Organic/Digital'') = (snd l \<noteq> ''Direct Mail'')" if "l \<in> set typed" for l
    using that classify_source_exclusive by (auto simp: typed_def)
  have "filter (\<lambda>l. snd l = ''Organic/Digital'') typed = filter (\<lambda>l. snd l \<noteq> ''Direct Mail'') typed"
    by (rule filter_cong) (simp_all add: cls)
  then have org': "organic_leads r
      = int (length (filter (\<lambda>l. fst l = d) (filter (\<lambda>l. snd l \<noteq> ''Direct Mail'') typed)))"
    by (simp add: org merged_count_groupby)
  have dm': "dm_leads r
      = int (length (filter (\<lambda>l. fst l = d) (filter (\<lambda>l. snd l = ''Direct Mail'') typed)))"
    by (simp add: dm merged_count_groupby)
  have "length (filter (\<lambda>l. snd l = ''Direct Mail'') xs) + length (filter (\<lambda>l. snd l \<noteq> ''Direct Mail'') xs)
        = length xs" for xs :: "(int \<times> string) list"
    by (rule sum_length_filter_compl)
  from this [of "filter (\<lambda>l. fst l = d) typed"]
  have "length (filter (\<lambda>l. fst l = d) (filter (\<lambda>l. snd l = ''Direct Mail'') typed))
        + length (filter (\<lambda>l. fst l = d) (filter (\<lambda>l. snd l \<noteq> ''Direct Mail'') typed))
        = length (filter (\<lambda>l. fst l = d) typed)"
    by (simp add: conj_commute)
  then show "dm_leads r + organic_leads r = total_leads r"
    unfolding dm' org' tot n by linarith
qed

theorem aggregate_daily_segments_sum_witness:
  "map (\<lambda>r. (date r, dm_leads r, organic_leads r, total_leads r))
       (aggregate_daily
          \<lparr>cal_year = (\<lambda>d. 2021), cal_month = (\<lambda>d. 3), cal_dow = (\<lambda>d. d mod 7),
           cal_week = (\<lambda>d. d div 7), cal_feb15 = (\<lambda>d. 0)\<rparr>
          [(2, ''Google''), (1, ''dm postcard''), (1, ''Unknown''), (1, ''x Direct Mail'')])
     = [(1, 2, 1, 3), (2, 0, 1, 1)]
   \<and> list_all (\<lambda>r. dm_leads r + organic_leads r = total_leads r)
        (aggregate_daily
          \<lparr>cal_year = (\<lambda>d. 2021), cal_month = (\<lambda>d. 3), cal_dow = (\<lambda>d. d mod 7),
           cal_week = (\<lambda>d. d div 7), cal_feb15 = (\<lambda>d. 0)\<rparr>
          [(2, ''Google''), (1, ''dm postcard''), (1, ''Unknown''), (1, ''x Direct Mail'')])"
proof
  show "map (\<lambda>r. (date r, dm_leads r, organic_leads r, total_leads r))
       (aggregate_daily
          \<lparr>cal_year = (\<lambda>d. 2021), cal_month = (\<lambda>d. 3), cal_dow = (\<lambda>d. d mod 7),
           cal_week = (\<lambda>d. d div 7), cal_feb15 = (\<lambda>d. 0)\<rparr>
          [(2, ''Google''), (1, ''dm postcard''), (1, ''Unknown''), (1, ''x Direct Mail'')])
     = [(1, 2, 1, 3), (2, 0, 1, 1)]"
    by code_simp
next
  show "list_all (\<lambda>r. dm_leads r + organic_leads r = total_leads r)
        (aggregate_daily
          \<lparr>cal_year = (\<lambda>d. 2021), cal_month = (\<lambda>d. 3), cal_dow = (\<lambda>d. d mod 7),
           cal_week = (\<lambda>d. d div 7), cal_feb15 = (\<lambda>d. 0)\<rparr>
          [(2, ''Google''), (1, ''dm postcard''), (1, ''Unknown''), (1, ''x Direct Mail'')])"
    unfolding list_all_iff by (rule aggregate_daily_segments_sum)
qed

section \<open>Metric theorems\<close>

lemma all_finite_map_Some: "all_finite (map Some vs) = Some vs"
  by (induction vs) auto

text \<open>
  Claim C8. Every denominator of the percentage error is the maximum of the actual value
  and 1, hence at least 1; no term of the mean is the outcome of a division by zero,
  whatever the targets (zero-lead days included), and over a non-empty sample the MAPE is
  a number.
\<close>

theorem mape_never_divides_by_zero:
  "(\<forall>m \<in> set (mape_denominators y). 1 \<le> m)
   \<and> ape_terms y y_pred
       = map (\<lambda>(a, p). Some (\<bar>real_of_int a - p\<bar> / real_of_int (max a 1))) (zip y y_pred)
   \<and> None \<notin> set (ape_terms y y_pred)
   \<and> (y \<noteq> [] \<and> length y_pred = length y \<longrightarrow> (\<exists>v. mape y y_pred = Some v))"
proof -
  have den: "\<forall>m \<in> set (mape_denominators y). 1 \<le> m"
    by (auto simp: mape_denominators_def)
  have terms: "ape_terms y y_pred
       = map (\<lambda>(a, p). Some (\<bar>real_of_int a - p\<bar> / real_of_int (max a 1))) (zip y y_pred)"
  proof (induction y arbitrary: y_pred)
    case Nil
    then show ?case by (simp add: ape_terms_def mape_denominators_def)
  next
    case (Cons a y)
    then show ?case
      by (cases y_pred) (auto simp: ape_terms_def mape_denominators_def np_divide_def)
  qed
  have none: "None \<notin> set (ape_terms y y_pred)"
    unfolding terms by auto
  have "\<exists>v. mape y y_pred = Some v" if "y \<noteq> []" "length y_pred = length y"
  proof -
    define vs where
      "vs = map (\<lambda>(a, p). \<bar>real_of_int a - p\<bar> / real_of_int (max a 1)) (zip y y_pred)"
    have "ape_terms y y_pred = map Some vs"
      unfolding terms vs_def by (simp add: case_prod_unfold)
    moreover have "real (length vs) \<noteq> 0" using that by (simp add: vs_def)
    ultimately show ?thesis
      by (simp add: mape_def np_mean_def all_finite_map_Some np_divide_def)
  qed
  with den terms none show ?thesis by blast
qed

theorem mape_never_divides_by_zero_witness:
  "ape_terms [0, 4] [3, 5] = [Some 3, Some (1/4)]
   \<and> list_all (\<lambda>m. 1 \<le> m) (mape_denominators [0, 4])
   \<and> (\<exists>v. mape [0, 4] [3, 5] = Some v)"
proof -
  have ne: "[0, 4] \<noteq> ([] :: int list) \<and> length [3, 5 :: real] = length [0, 4 :: int]"
    by simp
  note inst = mape_never_divides_by_zero [of "[0, 4]" "[3, 5]"]
  from inst have "ape_terms [0, 4] [3, 5] = [Some 3, Some (1/4)]" by simp
  moreover from inst have "list_all (\<lambda>m. 1 \<le> m) (mape_denominators [0, 4])"
    unfolding list_all_iff by blast
  moreover from inst ne have "\<exists>v. mape [0, 4] [3, 5] = Some v" by blast
  ultimately show ?thesis by blast
qed

section \<open>Per-year loops over a table\<close>

lemma set_unique: "set (unique xs) = set xs"
  by (induction xs) auto

lemma distinct_unique: "distinct (unique xs)"
  by (induction xs) (auto simp: set_unique)

lemma mask_index_props:
  "distinct (mask_index key df y)" "\<forall>j \<in> set (mask_index key df y). j < length df"
  "i \<in> set (mask_index key df y) \<longleftrightarrow> i < length df \<and> key (df ! i) = y"
  by (auto simp: mask_index_def)

lemma map_nth_upt_take: "i \<le> length d \<Longrightarrow> map ((!) d) [0..<i] = take i d"
  by (simp add: list_eq_iff_nth_eq)

lemma takeWhile_mask_index:
  assumes "i < length d" "key (d ! i) = y"
  shows "map ((!) d) (takeWhile (\<lambda>j. j \<noteq> i) (mask_index key d y))
         = filter (\<lambda>r. key r = y) (take i d)"
proof -
  let ?Q = "\<lambda>j. key (d ! j) = y"
  have split: "[0..<length d] = [0..<i] @ i # [Suc i..<length d]"
  proof -
    have "[0..<length d] = [0..<i] @ [i..<length d]"
      using assms(1) upt_add_eq_append [of 0 i "length d - i"] by simp
    moreover have "[i..<length d] = i # [Suc i..<length d]"
      using assms(1) by (simp add: upt_conv_Cons)
    ultimately show ?thesis by simp
  qed
  have "mask_index key d y = filter ?Q [0..<i] @ i # filter ?Q [Suc i..<length d]"
    unfolding mask_index_def by (subst split) (simp add: assms(2))
  moreover have "takeWhile (\<lambda>j. j \<noteq> i) (filter ?Q [0..<i] @ i # filter ?Q [Suc i..<length d])
      = filter ?Q [0..<i] @ takeWhile (\<lambda>j. j \<noteq> i) (i # filter ?Q [Suc i..<length d])"
    by (rule takeWhile_append2) auto
  ultimately have "takeWhile (\<lambda>j. j \<noteq> i) (mask_index key d y) = filter ?Q [0..<i]"
    by simp
  moreover have "map ((!) d) (filter ?Q [0..<i]) = filter (\<lambda>r. key r = y) (map ((!) d) [0..<i])"
    by (simp add: filter_map comp_def)
  ultimately show ?thesis using assms(1) by (simp add: map_nth_upt_take)
qed

lemma filter_agree_all2:
  "list_all2 (\<lambda>a b. P a \<or> P b \<longrightarrow> a = b) xs ys \<Longrightarrow> filter P xs = filter P ys"
proof (induction xs ys rule: list_all2_induct)
  case Nil
  then show ?case by simp
next
  case (Cons x xs y ys)
  show ?case
  proof (cases "P x \<or> P y")
    case True
    with Cons.hyps(1) have "x = y" by simp
    with Cons.IH show ?thesis by simp
  next
    case False
    with Cons.IH show ?thesis by simp
  qed
qed

lemma filter_agree:
  assumes "length xs = length ys"
    and "\<And>j. j < length xs \<Longrightarrow> P (xs ! j) \<or> P (ys ! j) \<Longrightarrow> xs ! j = ys ! j"
  shows "filter P xs = filter P ys"
proof (rule filter_agree_all2, unfold list_all2_conv_all_nth, intro conjI allI impI)
  show "length xs = length ys" by (rule assms(1))
next
  fix j assume "j < length xs" "P (xs ! j) \<or> P (ys ! j)"
  then show "xs ! j = ys ! j" by (rule assms(2))
qed

lemma foldl_groups_nth:
  fixes step :: "'r list \<Rightarrow> nat list \<Rightarrow> 'r list" and key :: "'r \<Rightarrow> int"
  assumes len: "\<And>d idx. length (step d idx) = length d"
    and out: "\<And>d idx i. i \<notin> set idx \<Longrightarrow> step d idx ! i = d ! i"
    and at: "\<And>d idx i. distinct idx \<Longrightarrow> \<forall>j \<in> set idx. j < length d \<Longrightarrow> i \<in> set idx \<Longrightarrow>
               step d idx ! i = G (map ((!) d) (takeWhile (\<lambda>j. j \<noteq> i) idx)) (d ! i)"
    and key: "\<And>p r. key (G p r) = key r"
  shows "distinct ys \<Longrightarrow> i < length d \<Longrightarrow>
         foldl (\<lambda>d y. step d (mask_index key d y)) d ys ! i
         = (if key (d ! i) \<in> set ys
            then G (filter (\<lambda>r. key r = key (d ! i)) (take i d)) (d ! i) else d ! i)"
proof (induction ys arbitrary: d)
  case Nil
  then show ?case by simp
next
  case (Cons y ys)
  define d' where "d' = step d (mask_index key d y)"
  have len': "length d' = length d" by (simp add: d'_def len)
  have at_y: "d' ! j = G (filter (\<lambda>r. key r = y) (take j d)) (d ! j)"
    if "j < length d" "key (d ! j) = y" for j
    using at [OF mask_index_props(1,2), of j key d y] that
    by (simp add: d'_def mask_index_props(3) takeWhile_mask_index)
  have off_y: "d' ! j = d ! j" if "key (d ! j) \<noteq> y" for j
    using that by (simp add: d'_def out mask_index_props(3))
  have keys: "key (d' ! j) = key (d ! j)" if "j < length d" for j
    using at_y [OF that] off_y [of j] by (cases "key (d ! j) = y") (simp_all add: key)
  from Cons.prems have dist: "distinct ys" and ynot: "y \<notin> set ys" by simp_all
  have IH: "foldl (\<lambda>d y. step d (mask_index key d y)) d' ys ! i
         = (if key (d' ! i) \<in> set ys
            then G (filter (\<lambda>r. key r = key (d' ! i)) (take i d')) (d' ! i) else d' ! i)"
    using Cons.IH [OF dist, of d'] Cons.prems(2) len' by simp
  have unfold: "foldl (\<lambda>d y. step d (mask_index key d y)) d (y # ys)
                = foldl (\<lambda>d y. step d (mask_index key d y)) d' ys"
    by (simp add: d'_def)
  have ki: "key (d' ! i) = key (d ! i)" by (rule keys [OF Cons.prems(2)])
  show ?case
  proof (cases "key (d ! i) = y")
    case True
    have "foldl (\<lambda>d y. step d (mask_index key d y)) d' ys ! i = d' ! i"
      unfolding IH ki using True ynot by simp
    also have "\<dots> = G (filter (\<lambda>r. key r = y) (take i d)) (d ! i)"
      by (rule at_y [OF Cons.prems(2) True])
    finally show ?thesis unfolding unfold using True by simp
  next
    case False
    have same: "filter (\<lambda>r. key r = key (d ! i)) (take i d') = filter (\<lambda>r. key r = key (d ! i)) (take i d)"
    proof (rule filter_agree)
      show "length (take i d') = length (take i d)" by (simp add: len')
    next
      fix j assume "j < length (take i d')"
        and P: "key (take i d' ! j) = key (d ! i) \<or> key (take i d ! j) = key (d ! i)"
      then have j: "j < i" "j < length d" using len' by simp_all
      have "key (d' ! j) = key (d ! j)" by (rule keys [OF j(2)])
      with P j len' have "key (d ! j) = key (d ! i)" by simp
      with False have "d' ! j = d ! j" by (intro off_y) simp
      with j len' show "take i d' ! j = take i d ! j" by simp
    qed
    have di: "d' ! i = d ! i" using False by (rule off_y)
    have "foldl (\<lambda>d y. step d (mask_index key d y)) d' ys ! i
          = (if key (d ! i) \<in> set ys
             then G (filter (\<lambda>r. key r = key (d ! i)) (take i d)) (d ! i) else d ! i)"
      unfolding IH ki same di ..
    then show ?thesis unfolding unfold using False by simp
  qed
qed

section \<open>Streak theorems\<close>

lemma streak_loop_length: "length (streak_loop df idx c qs) = length df"
  by (induction idx arbitrary: df c qs) (simp_all add: Let_def)

lemma streak_loop_out: "i \<notin> set idx \<Longrightarrow> streak_loop df idx c qs ! i = df ! i"
  by (induction idx arbitrary: df c qs) (simp_all add: Let_def)

lemma streak_loop_at:
  "distinct idx \<Longrightarrow> \<forall>j \<in> set idx. j < length df \<Longrightarrow> i \<in> set idx \<Longrightarrow>
   streak_loop df idx c qs ! i
   = tag (df ! i)
         (foldl count_step c (map (\<lambda>j. weather_quality (df ! j)) (takeWhile (\<lambda>j. j \<noteq> i) idx)))
         (qs @ map (\<lambda>j. weather_quality (df ! j)) (takeWhile (\<lambda>j. j \<noteq> i) idx))"
proof (induction idx arbitrary: df c qs)
  case Nil
  then show ?case by simp
next
  case (Cons ix idx)
  define q where "q = weather_quality (df ! ix)"
  define c' where "c' = count_step c q"
  define df' where "df' = (let 
          df = df[ix := (df ! ix)\<lparr>nice_streak := fst c', bad_streak := snd c'\<rparr>];
          df = (if length qs \<ge> 1
                then df[ix := (df ! ix)\<lparr>prev_day_quality := Some (last qs)\<rparr>]
                else df);
          df = (if length qs \<ge> 2
                then df[ix := (df ! ix)\<lparr>prev_2day_quality :=
                                          Some (qs ! (length qs - 2))\<rparr>]
                else df) in df)"
  have step: "streak_loop df (ix # idx) c qs = streak_loop df' idx c' (qs @ [q])"
    by (simp add: Let_def df'_def c'_def q_def)
  have ixlen: "ix < length df" using Cons.prems(2) by simp
  have len': "length df' = length df" by (simp add: df'_def Let_def)
  have other: "df' ! j = df ! j" if "j \<noteq> ix" for j
    using that by (simp add: df'_def Let_def)
  have at_ix: "df' ! ix = tag (df ! ix) c qs"
    using ixlen by (cases qs rule: rev_cases; simp add: df'_def Let_def tag_def c'_def q_def)
  show ?case
  proof (cases "i = ix")
    case True
    then have "streak_loop df' idx c' (qs @ [q]) ! i = df' ! ix"
      using Cons.prems(1) by (simp add: streak_loop_out)
    with at_ix True show ?thesis unfolding step by simp
  next
    case False
    with Cons.prems have i: "i \<in> set idx" and d: "distinct idx" and notin: "ix \<notin> set idx"
      and lt: "\<forall>j \<in> set idx. j < length df'" by (simp_all add: len')
    have same: "map (\<lambda>j. weather_quality (df' ! j)) (takeWhile (\<lambda>j. j \<noteq> i) idx)
              = map (\<lambda>j. weather_quality (df ! j)) (takeWhile (\<lambda>j. j \<noteq> i) idx)"
    proof (rule map_cong [OF refl])
      fix j assume "j \<in> set (takeWhile (\<lambda>j. j \<noteq> i) idx)"
      then have "j \<in> set idx" by (rule set_takeWhileD [THEN conjunct1])
      with notin have "j \<noteq> ix" by auto
      then show "weather_quality (df' ! j) = weather_quality (df ! j)" by (simp add: other)
    qed
    from False i notin have "df' ! i = df ! i" by (intro other) auto
    with Cons.IH [OF d lt i, of c' "qs @ [q]"] same False
    show ?thesis unfolding step by (simp add: c'_def q_def)
  qed
qed


lemma init_row_simps:
  "year (init_row r) = year r" "date (init_row r) = date r" "dow (init_row r) = dow r"
  "weather (init_row r) = weather r"
  "weather_quality (init_row r) = classify_day_weather (weather r)"
  "nice_streak (init_row r) = 0" "bad_streak (init_row r) = 0"
  "prev_day_quality (init_row r) = None" "prev_2day_quality (init_row r) = None"
  by (simp_all add: init_row_def merged.defs streaked.defs lead_day.defs)

lemma tag_simps:
  "year (tag r c qs) = year r" "date (tag r c qs) = date r" "dow (tag r c qs) = dow r"
  "weather (tag r c qs) = weather r"
  "weather_quality (tag r c qs) = weather_quality r"
  "nice_streak (tag r c qs) = fst (count_step c (weather_quality r))"
  "bad_streak (tag r c qs) = snd (count_step c (weather_quality r))"
  "prev_day_quality (tag r c qs) = (if qs = [] then prev_day_quality r else Some (last qs))"
  "prev_2day_quality (tag r c qs)
     = (if length qs \<ge> 2 then Some (qs ! (length qs - 2)) else prev_2day_quality r)"
  by (simp_all add: tag_def Let_def)

lemma build_streaks_nth:
  assumes "i < length df"
  shows "build_streaks df ! i = tagged (filter (\<lambda>r. year r = year (df ! i)) (take i df)) (df ! i)"
proof -
  define df0 where "df0 = map init_row df"
  define G :: "streaked list \<Rightarrow> streaked \<Rightarrow> streaked"
    where "G = (\<lambda>prev cur. tag cur (foldl count_step (0, 0) (map weather_quality prev))
                                     (map weather_quality prev))"
  have bs: "build_streaks df
            = foldl (\<lambda>d y. streak_loop d (mask_index year d y) (0, 0) []) df0 (unique (map year df0))"
    unfolding build_streaks_def df0_def Let_def ..
  have i0: "i < length df0" using assms by (simp add: df0_def)
  have at: "streak_loop d idx (0, 0) [] ! j = G (map ((!) d) (takeWhile (\<lambda>k. k \<noteq> j) idx)) (d ! j)"
    if "distinct idx" "\<forall>k \<in> set idx. k < length d" "j \<in> set idx" for d idx j
    using streak_loop_at [OF that, of "(0, 0)" "[]"] by (simp add: G_def comp_def)
  have "foldl (\<lambda>d y. streak_loop d (mask_index year d y) (0, 0) []) df0 (unique (map year df0)) ! i
        = (if year (df0 ! i) \<in> set (unique (map year df0))
           then G (filter (\<lambda>r. year r = year (df0 ! i)) (take i df0)) (df0 ! i) else df0 ! i)"
  proof (rule foldl_groups_nth [where step = "\<lambda>d idx. streak_loop d idx (0, 0) []" and G = G])
    show "\<And>d idx. length (streak_loop d idx (0, 0) []) = length d" by (rule streak_loop_length)
    show "\<And>d idx i. i \<notin> set idx \<Longrightarrow> streak_loop d idx (0, 0) [] ! i = d ! i"
      by (rule streak_loop_out)
    show "\<And>d idx i. distinct idx \<Longrightarrow> \<forall>j\<in>set idx. j < length d \<Longrightarrow> i \<in> set idx \<Longrightarrow>
       streak_loop d idx (0, 0) [] ! i = G (map ((!) d) (takeWhile (\<lambda>j. j \<noteq> i) idx)) (d ! i)"
      by (rule at)
    show "\<And>p r. year (G p r) = year r" by (simp add: G_def tag_simps)
    show "distinct (unique (map year df0))" by (rule distinct_unique)
    show "i < length df0" by (rule i0)
  qed
  moreover have "year (df0 ! i) \<in> set (unique (map year df0))"
    using i0 by (simp add: set_unique)
  ultimately have "build_streaks df ! i
      = G (filter (\<lambda>r. year r = year (df0 ! i)) (take i df0)) (df0 ! i)"
    by (simp add: bs)
  moreover have "df0 ! i = init_row (df ! i)" using assms by (simp add: df0_def)
  moreover have "filter (\<lambda>r. year r = y) (take i df0)
                 = map init_row (filter (\<lambda>r. year r = y) (take i df))" for y
    by (simp add: df0_def take_map filter_map comp_def init_row_simps)
  ultimately show ?thesis
    by (simp add: G_def tagged_def Let_def comp_def init_row_simps)
qed


lemma foldl_groups_length:
  assumes "\<And>d idx. length (step d idx) = length d"
  shows "length (foldl (\<lambda>d y. step d (mask_index key d y)) d ys) = length d"
  by (induction ys arbitrary: d) (simp_all add: assms)

lemma filter_map_prefix:
  assumes key: "\<And>p r. key' (H p r) = key r"
  shows "filter (\<lambda>r. key' r = y)
           (map (\<lambda>i. H (filter (\<lambda>r. key r = key (xs ! i)) (take i xs)) (xs ! i)) [0..<length xs])
         = map (\<lambda>k. H (take k (filter (\<lambda>r. key r = y) xs)) (filter (\<lambda>r. key r = y) xs ! k))
               [0..<length (filter (\<lambda>r. key r = y) xs)]"
proof (induction xs rule: rev_induct)
  case Nil
  then show ?case by simp
next
  case (snoc x xs)
  define fs where "fs = filter (\<lambda>r. key r = y) xs"
  define F where "F = (\<lambda>zs i. H (filter (\<lambda>r. key r = key (zs ! i)) (take i zs)) (zs ! i))"
  define K where "K = (\<lambda>zs k. H (take k zs) (zs ! k))"
  have IH: "filter (\<lambda>r. key' r = y) (map (F xs) [0..<length xs]) = map (K fs) [0..<length fs]"
    using snoc.IH by (simp add: F_def K_def fs_def)
  have old: "map (F (xs @ [x])) [0..<length xs] = map (F xs) [0..<length xs]"
    by (rule map_cong [OF refl]) (simp add: nth_append F_def)
  have last: "F (xs @ [x]) (length xs) = H (filter (\<lambda>r. key r = key x) xs) x"
    by (simp add: F_def)
  have lhs: "map (F (xs @ [x])) [0..<length (xs @ [x])]
             = map (F xs) [0..<length xs] @ [H (filter (\<lambda>r. key r = key x) xs) x]"
    using old last by simp
  have goal: "filter (\<lambda>r. key' r = y) (map (F (xs @ [x])) [0..<length (xs @ [x])])
        = map (K (filter (\<lambda>r. key r = y) (xs @ [x]))) [0..<length (filter (\<lambda>r. key r = y) (xs @ [x]))]"
  proof (cases "key x = y")
    case True
    have oldk: "map (K (fs @ [x])) [0..<length fs] = map (K fs) [0..<length fs]"
      by (rule map_cong [OF refl]) (simp add: nth_append K_def)
    have lastk: "K (fs @ [x]) (length fs) = H fs x" by (simp add: K_def)
    have rhs: "map (K (fs @ [x])) [0..<length (fs @ [x])] = map (K fs) [0..<length fs] @ [H fs x]"
      using oldk lastk by simp
    have f: "filter (\<lambda>r. key r = y) (xs @ [x]) = fs @ [x]" using True by (simp add: fs_def)
    have "filter (\<lambda>r. key' r = y) (map (F (xs @ [x])) [0..<length (xs @ [x])])
          = map (K fs) [0..<length fs] @ [H fs x]"
      unfolding lhs using IH True by (simp add: key fs_def)
    then show ?thesis unfolding f rhs .
  next
    case False
    have f: "filter (\<lambda>r. key r = y) (xs @ [x]) = fs" using False by (simp add: fs_def)
    have "filter (\<lambda>r. key' r = y) (map (F (xs @ [x])) [0..<length (xs @ [x])])
          = map (K fs) [0..<length fs]"
      unfolding lhs using IH False by (simp add: key)
    then show ?thesis unfolding f .
  qed
  then show ?case unfolding F_def K_def .
qed

lemma build_streaks_length: "length (build_streaks df) = length df"
  unfolding build_streaks_def Let_def
  by (simp add: foldl_groups_length [where step = "\<lambda>d idx. streak_loop d idx (0, 0) []"]
        streak_loop_length)

lemma tagged_simps:
  "year (tagged p r) = year r" "date (tagged p r) = date r" "dow (tagged p r) = dow r"
  "weather (tagged p r) = weather r"
  "weather_quality (tagged p r) = classify_day_weather (weather r)"
  by (simp_all add: tagged_def Let_def tag_simps init_row_simps)

lemma build_streaks_map:
  "build_streaks df
   = map (\<lambda>i. tagged (filter (\<lambda>r. year r = year (df ! i)) (take i df)) (df ! i)) [0..<length df]"
  by (rule nth_equalityI) (simp_all add: build_streaks_length build_streaks_nth)

lemma build_streaks_year:
  "filter (\<lambda>r. year r = y) (build_streaks df)
   = map (\<lambda>k. tagged (take k (filter (\<lambda>r. year r = y) df)) (filter (\<lambda>r. year r = y) df ! k))
         [0..<length (filter (\<lambda>r. year r = y) df)]"
  unfolding build_streaks_map
  by (rule filter_map_prefix) (simp add: tagged_simps)

lemma counts_tagged:
  "foldl count_step (0, 0) (map (\<lambda>p. classify_day_weather (weather p)) (prev @ [r]))
   = (nice_streak (tagged prev r), bad_streak (tagged prev r))"
  by (simp add: tagged_def Let_def tag_simps init_row_simps)

lemma tagged_recurrence:
  "nice_streak (tagged (prev @ [p]) r)
     = (if classify_day_weather (weather r) = ''nice'' then 1 + nice_streak (tagged prev p) else 0)"
  "bad_streak (tagged (prev @ [p]) r)
     = (if classify_day_weather (weather r) = ''bad'' then 1 + bad_streak (tagged prev p) else 0)"
  "prev_day_quality (tagged (prev @ [p]) r) = Some (classify_day_weather (weather p))"
proof -
  have c: "foldl count_step (0, 0) (map (\<lambda>p. classify_day_weather (weather p)) (prev @ [p]))
           = (nice_streak (tagged prev p), bad_streak (tagged prev p))"
    by (rule counts_tagged)
  show "nice_streak (tagged (prev @ [p]) r)
     = (if classify_day_weather (weather r) = ''nice'' then 1 + nice_streak (tagged prev p) else 0)"
    unfolding tagged_def [of "prev @ [p]"] Let_def tag_simps c by (simp add: init_row_simps)
  show "bad_streak (tagged (prev @ [p]) r)
     = (if classify_day_weather (weather r) = ''bad'' then 1 + bad_streak (tagged prev p) else 0)"
    unfolding tagged_def [of "prev @ [p]"] Let_def tag_simps c by (simp add: init_row_simps)
  show "prev_day_quality (tagged (prev @ [p]) r) = Some (classify_day_weather (weather p))"
    unfolding tagged_def [of "prev @ [p]"] Let_def tag_simps by simp
qed

lemma tagged_first:
  "nice_streak (tagged [] r) = (if classify_day_weather (weather r) = ''nice'' then 1 else 0)"
  "bad_streak (tagged [] r) = (if classify_day_weather (weather r) = ''bad'' then 1 else 0)"
  "prev_day_quality (tagged [] r) = None" "prev_2day_quality (tagged [] r) = None"
  by (simp_all add: tagged_def Let_def tag_simps init_row_simps)

lemma tagged_prev2:
  "prev_2day_quality (tagged [p] r) = None"
  "prev_2day_quality (tagged (prev @ [p2, p1]) r) = Some (classify_day_weather (weather p2))"
  by (simp_all add: tagged_def Let_def tag_simps init_row_simps nth_append)

lemma season_build_streaks:
  "season y (build_streaks df)
   = map (\<lambda>k. tagged (take k (season y df)) (season y df ! k)) [0..<length (season y df)]"
  unfolding season_def by (rule build_streaks_year)

lemma season_idem: "filter (\<lambda>r. year r = year (season y df ! i)) (take i (season y df)) = take i (season y df)"
  if "i < length (season y df)"
proof -
  have "\<forall>r \<in> set (season y df). year r = y" by (simp add: season_def)
  moreover have "season y df ! i \<in> set (season y df)" using that by simp
  moreover have "set (take i (season y df)) \<subseteq> set (season y df)" by (rule set_take_subset)
  ultimately show ?thesis by (auto simp: filter_id_conv)
qed

lemma season_independent: "season y (build_streaks df) = build_streaks (season y df)"
  unfolding season_build_streaks build_streaks_map [of "season y df"]
  by (rule map_cong [OF refl]) (simp add: season_idem)

text \<open>
  Claim C2. Within the rows of one year, taken in table (date) order, the streak counters
  follow the recurrence: the nice streak of a day is one more than that of the year's
  previous day when the day is "nice" and 0 otherwise, likewise for the bad streak and
  "bad", and an "ok" day leaves both at 0. The first day of a year starts from counters
  0 and no previous quality. The rows of a year come out the same when the table holds
  that year alone: no state is carried across a year boundary.
\<close>

theorem build_streaks_recurrence:
  "season y (build_streaks df) = build_streaks (season y df)
   \<and> map date (season y (build_streaks df)) = map date (season y df)
   \<and> (k < length (season y (build_streaks df)) \<longrightarrow>
       (let ys = season y (build_streaks df); q = weather_quality (ys ! k)
        in q = classify_day_weather (weather (ys ! k))
           \<and> nice_streak (ys ! k)
               = (if q = ''nice'' then 1 + (if k = 0 then 0 else nice_streak (ys ! (k - 1))) else 0)
           \<and> bad_streak (ys ! k)
               = (if q = ''bad'' then 1 + (if k = 0 then 0 else bad_streak (ys ! (k - 1))) else 0)
           \<and> (q \<noteq> ''nice'' \<and> q \<noteq> ''bad'' \<longrightarrow> nice_streak (ys ! k) = 0 \<and> bad_streak (ys ! k) = 0)
           \<and> prev_day_quality (ys ! k)
               = (if k = 0 then None else Some (weather_quality (ys ! (k - 1))))
           \<and> prev_2day_quality (ys ! k)
               = (if k < 2 then None else Some (weather_quality (ys ! (k - 2))))))"
proof (intro conjI impI)
  show "season y (build_streaks df) = build_streaks (season y df)" by (rule season_independent)
next
  show "map date (season y (build_streaks df)) = map date (season y df)"
    unfolding season_build_streaks
    by (rule nth_equalityI) (simp_all add: tagged_simps)
next
  define fs where "fs = season y df"
  define ys where "ys = season y (build_streaks df)"
  assume "k < length (season y (build_streaks df))"
  then have k: "k < length fs" by (simp add: season_build_streaks fs_def)
  have ys: "ys ! j = tagged (take j fs) (fs ! j)" if "j < length fs" for j
    using that unfolding ys_def fs_def season_build_streaks by simp
  have q: "weather_quality (ys ! j) = classify_day_weather (weather (fs ! j))"
    and w: "weather (ys ! j) = weather (fs ! j)" if "j < length fs" for j
    using that by (simp_all add: ys tagged_simps)
  have main: "weather_quality (ys ! k) = classify_day_weather (weather (ys ! k))
     \<and> nice_streak (ys ! k)
         = (if weather_quality (ys ! k) = ''nice''
            then 1 + (if k = 0 then 0 else nice_streak (ys ! (k - 1))) else 0)
     \<and> bad_streak (ys ! k)
         = (if weather_quality (ys ! k) = ''bad''
            then 1 + (if k = 0 then 0 else bad_streak (ys ! (k - 1))) else 0)
     \<and> prev_day_quality (ys ! k)
         = (if k = 0 then None else Some (weather_quality (ys ! (k - 1))))
     \<and> prev_2day_quality (ys ! k)
         = (if k < 2 then None else Some (weather_quality (ys ! (k - 2))))"
  proof (cases k)
    case 0
    with k show ?thesis by (simp add: ys q w tagged_simps tagged_first)
  next
    case (Suc j)
    with k have j: "j < length fs" by simp
    have tk: "take k fs = take j fs @ [fs ! j]"
      using j Suc by (simp add: take_Suc_conv_app_nth)
    have p2: "prev_2day_quality (ys ! k)
         = (if k < 2 then None else Some (weather_quality (ys ! (k - 2))))"
    proof (cases j)
      case 0
      with tk have "take k fs = [fs ! j]" by simp
      then have "prev_2day_quality (ys ! k) = None"
        unfolding ys [OF k] by (simp add: tagged_prev2)
      with 0 \<open>k = Suc j\<close> show ?thesis by simp
    next
      case (Suc i)
      with j have i: "i < length fs" by simp
      have "take j fs = take i fs @ [fs ! i]"
        using i Suc by (simp add: take_Suc_conv_app_nth)
      with tk have "take k fs = take i fs @ [fs ! i, fs ! j]" by simp
      then have "prev_2day_quality (ys ! k) = Some (classify_day_weather (weather (fs ! i)))"
        unfolding ys [OF k] by (simp add: tagged_prev2)
      with Suc \<open>k = Suc j\<close> q [OF i] show ?thesis by simp
    qed
    have n: "nice_streak (ys ! k)
        = (if classify_day_weather (weather (fs ! k)) = ''nice'' then 1 + nice_streak (ys ! j) else 0)"
      unfolding ys [OF k] ys [OF j] tk by (rule tagged_recurrence)
    have b: "bad_streak (ys ! k)
        = (if classify_day_weather (weather (fs ! k)) = ''bad'' then 1 + bad_streak (ys ! j) else 0)"
      unfolding ys [OF k] ys [OF j] tk by (rule tagged_recurrence)
    have p: "prev_day_quality (ys ! k) = Some (classify_day_weather (weather (fs ! j)))"
      unfolding ys [OF k] tk by (rule tagged_recurrence)
    show ?thesis
      unfolding n b p p2 q [OF k] w [OF k] using Suc q [OF j] by simp
  qed
  have ok: "nice_streak (ys ! k) = 0 \<and> bad_streak (ys ! k) = 0"
    if "weather_quality (ys ! k) \<noteq> ''nice''" "weather_quality (ys ! k) \<noteq> ''bad''"
    using main that by simp
  from main ok
  show "let ys = season y (build_streaks df); q = weather_quality (ys ! k)
        in q = classify_day_weather (weather (ys ! k))
           \<and> nice_streak (ys ! k)
               = (if q = ''nice'' then 1 + (if k = 0 then 0 else nice_streak (ys ! (k - 1))) else 0)
           \<and> bad_streak (ys ! k)
               = (if q = ''bad'' then 1 + (if k = 0 then 0 else bad_streak (ys ! (k - 1))) else 0)
           \<and> (q \<noteq> ''nice'' \<and> q \<noteq> ''bad'' \<longrightarrow> nice_streak (ys ! k) = 0 \<and> bad_streak (ys ! k) = 0)
           \<and> prev_day_quality (ys ! k)
               = (if k = 0 then None else Some (weather_quality (ys ! (k - 1))))
           \<and> prev_2day_quality (ys ! k)
               = (if k < 2 then None else Some (weather_quality (ys ! (k - 2))))"
    unfolding Let_def ys_def [symmetric] by blast
qed

theorem build_streaks_recurrence_witness:
  "map nice_streak (build_streaks
         [sample_day 1 2021 0 10 (Num 60) (Num 9) (Num 0),
          sample_day 2 2021 1 12 (Num 62) (Num 8) (Num 0),
          sample_day 400 2022 2 9 (Num 60) (Num 9) (Num 0)]) = [1, 2, 1]
   \<and> nice_streak (season 2021 (build_streaks
         [sample_day 1 2021 0 10 (Num 60) (Num 9) (Num 0),
          sample_day 2 2021 1 12 (Num 62) (Num 8) (Num 0),
          sample_day 400 2022 2 9 (Num 60) (Num 9) (Num 0)]) ! 1)
      = 1 + nice_streak (season 2021 (build_streaks
         [sample_day 1 2021 0 10 (Num 60) (Num 9) (Num 0),
          sample_day 2 2021 1 12 (Num 62) (Num 8) (Num 0),
          sample_day 400 2022 2 9 (Num 60) (Num 9) (Num 0)]) ! 0)
   \<and> prev_day_quality (season 2022 (build_streaks
         [sample_day 1 2021 0 10 (Num 60) (Num 9) (Num 0),
          sample_day 2 2021 1 12 (Num 62) (Num 8) (Num 0),
          sample_day 400 2022 2 9 (Num 60) (Num 9) (Num 0)]) ! 0) = None"
proof -
  let ?ex = "[sample_day 1 2021 0 10 (Num 60) (Num 9) (Num 0),
          sample_day 2 2021 1 12 (Num 62) (Num 8) (Num 0),
          sample_day 400 2022 2 9 (Num 60) (Num 9) (Num 0)]"
  have all: "map nice_streak (build_streaks ?ex) = [1, 2, 1]" by code_simp
  have len1: "1 < length (season 2021 (build_streaks ?ex))" by code_simp
  have q1: "weather_quality (season 2021 (build_streaks ?ex) ! 1) = ''nice''" by code_simp
  have len2: "0 < length (season 2022 (build_streaks ?ex))" by code_simp
  note r1 = build_streaks_recurrence [of 2021 ?ex 1, THEN conjunct2, THEN conjunct2, THEN mp,
                OF len1, unfolded Let_def]
  note r2 = build_streaks_recurrence [of 2022 ?ex 0, THEN conjunct2, THEN conjunct2, THEN mp,
                OF len2, unfolded Let_def]
  from r1 q1
  have a: "nice_streak (season 2021 (build_streaks ?ex) ! 1)
           = 1 + nice_streak (season 2021 (build_streaks ?ex) ! 0)"
    by simp
  from r2
  have b: "prev_day_quality (season 2022 (build_streaks ?ex) ! 0) = None"
    by simp
  from all a b show ?thesis by blast
qed

section \<open>Sundays in the momentum table\<close>

lemma load_data_filter: "load_data csv = sort_key date (filter kept csv)"
  unfolding load_data_def Let_def filter_filter
  by (rule arg_cong [where f = "sort_key date"], rule filter_cong) (auto simp: kept_def)

lemma sorted_dates_filter:
  "sorted_wrt (\<lambda>a b. date a < date b) csv \<Longrightarrow> sorted (map date (filter P csv))"
proof -
  assume "sorted_wrt (\<lambda>a b. date a < date b) csv"
  then have "sorted_wrt (\<lambda>a b. date a \<le> date b) csv"
    by (rule sorted_wrt_mono_rel [rotated]) simp
  then have "sorted_wrt (\<lambda>a b. date a \<le> date b) (filter P csv)"
    by (rule sorted_wrt_filter)
  then show ?thesis by (simp add: sorted_map)
qed

lemma load_data_sorted:
  "sorted_wrt (\<lambda>a b. date a < date b) csv \<Longrightarrow> load_data csv = filter kept csv"
  unfolding load_data_filter by (rule sort_key_id_if_sorted) (rule sorted_dates_filter)

lemma load_data_dow: "r \<in> set (load_data csv) \<Longrightarrow> dow r < 6"
  by (simp add: load_data_filter kept_def)

lemma build_streaks_dow: "list_all (\<lambda>r. dow r < 6) (build_streaks (load_data csv))"
  unfolding build_streaks_map list_all_iff
  by (auto simp: tagged_simps intro!: load_data_dow nth_mem)

text \<open>
  Claim C10. \<open>load_data\<close> drops every Sunday before the scan. In a date-ordered file, a
  Saturday and the Monday after it (same year) are neighbours in the scan: Monday's
  previous-day quality is Saturday's, and Monday's streaks continue Saturday's. The
  result is the same as on the file without the Sunday row, whatever its weather.
\<close>

theorem momentum_skips_sunday:
  assumes sorted: "sorted_wrt (\<lambda>a b. date a < date b) (pre @ [sat, sun, mon] @ post)"
    and years: "year sat \<in> {2021, 2022, 2023, 2024, 2025}" "year mon = year sat"
    and dows: "dow sat = 5" "dow sun = 6" "dow mon = 0"
  shows "let out = momentum_table (pre @ [sat, sun, mon] @ post); k = length (load_data pre)
         in out = momentum_table (pre @ [sat, mon] @ post)
            \<and> list_all (\<lambda>r. dow r < 6) out
            \<and> date (out ! k) = date sat \<and> date (out ! Suc k) = date mon
            \<and> weather_quality (out ! k) = classify_day_weather (weather sat)
            \<and> weather_quality (out ! Suc k) = classify_day_weather (weather mon)
            \<and> prev_day_quality (out ! Suc k) = Some (weather_quality (out ! k))
            \<and> nice_streak (out ! Suc k)
                = (if weather_quality (out ! Suc k) = ''nice'' then 1 + nice_streak (out ! k) else 0)
            \<and> bad_streak (out ! Suc k)
                = (if weather_quality (out ! Suc k) = ''bad'' then 1 + bad_streak (out ! k) else 0)"
proof -
  define df where "df = load_data (pre @ [sat, sun, mon] @ post)"
  define k where "k = length (load_data pre)"
  define out where "out = build_streaks df"
  have ksat: "kept sat" and kmon: "kept mon" and ksun: "\<not> kept sun"
    using years dows by (simp_all add: kept_def)
  have spre: "sorted_wrt (\<lambda>a b. date a < date b) pre"
    using sorted by (simp add: sorted_wrt_append)
  have pre: "load_data pre = filter kept pre" by (rule load_data_sorted [OF spre])
  have df: "df = load_data pre @ [sat, mon] @ filter kept post"
    unfolding df_def load_data_sorted [OF sorted] pre using ksat kmon ksun by simp
  have same: "load_data (pre @ [sat, sun, mon] @ post) = load_data (pre @ [sat, mon] @ post)"
    unfolding load_data_filter using ksun by simp
  have len: "k < length df" "Suc k < length df" by (simp_all add: df k_def)
  have at_k: "df ! k = sat" and at_k1: "df ! Suc k = mon"
    by (simp_all add: df k_def nth_append)
  have tk: "take k df = load_data pre" and tk1: "take (Suc k) df = load_data pre @ [sat]"
    by (simp_all add: df k_def)
  define prev where "prev = filter (\<lambda>r. year r = year sat) (load_data pre)"
  have ok: "out ! k = tagged prev sat"
    unfolding out_def build_streaks_nth [OF len(1)] at_k tk prev_def ..
  have ok1: "out ! Suc k = tagged (prev @ [sat]) mon"
    unfolding out_def build_streaks_nth [OF len(2)] at_k1 tk1 prev_def
    by (simp add: years)
  have "out = momentum_table (pre @ [sat, mon] @ post)"
    using same by (simp add: out_def df_def momentum_table_def)
  moreover have "list_all (\<lambda>r. dow r < 6) out"
    unfolding out_def df_def by (rule build_streaks_dow)
  moreover have "date (out ! k) = date sat" "date (out ! Suc k) = date mon"
      "weather_quality (out ! k) = classify_day_weather (weather sat)"
      "weather_quality (out ! Suc k) = classify_day_weather (weather mon)"
    by (simp_all add: ok ok1 tagged_simps)
  moreover have "prev_day_quality (out ! Suc k) = Some (weather_quality (out ! k))"
    by (simp add: ok ok1 tagged_recurrence tagged_simps)
  moreover have "nice_streak (out ! Suc k)
       = (if weather_quality (out ! Suc k) = ''nice'' then 1 + nice_streak (out ! k) else 0)"
    by (simp add: ok ok1 tagged_recurrence tagged_simps)
  moreover have "bad_streak (out ! Suc k)
       = (if weather_quality (out ! Suc k) = ''bad'' then 1 + bad_streak (out ! k) else 0)"
    by (simp add: ok ok1 tagged_recurrence tagged_simps)
  ultimately show ?thesis
    unfolding Let_def momentum_table_def df_def [symmetric] out_def [symmetric] k_def [symmetric]
    by blast
qed

theorem momentum_skips_sunday_witness:
  "map (\<lambda>r. (date r, weather_quality r, nice_streak r, prev_day_quality r))
       (momentum_table
          [sample_day 5 2021 5 10 (Num 60) (Num 9) (Num 0),
           sample_day 6 2021 6 3 (Num 30) (Num 0) (Num 4),
           sample_day 7 2021 0 12 (Num 62) (Num 8) (Num 0)])
     = [(5, ''nice'', 1, None), (7, ''nice'', 2, Some ''nice'')]
   \<and> classify_day_weather (weather (sample_day 6 2021 6 3 (Num 30) (Num 0) (Num 4))) = ''bad''
   \<and> nice_streak (momentum_table
          [sample_day 5 2021 5 10 (Num 60) (Num 9) (Num 0),
           sample_day 6 2021 6 3 (Num 30) (Num 0) (Num 4),
           sample_day 7 2021 0 12 (Num 62) (Num 8) (Num 0)] ! Suc 0)
      = 1 + nice_streak (momentum_table
          [sample_day 5 2021 5 10 (Num 60) (Num 9) (Num 0),
           sample_day 6 2021 6 3 (Num 30) (Num 0) (Num 4),
           sample_day 7 2021 0 12 (Num 62) (Num 8) (Num 0)] ! 0)"
proof -
  let ?sat = "sample_day 5 2021 5 10 (Num 60) (Num 9) (Num 0)"
  let ?sun = "sample_day 6 2021 6 3 (Num 30) (Num 0) (Num 4)"
  let ?mon = "sample_day 7 2021 0 12 (Num 62) (Num 8) (Num 0)"
  have rows: "map (\<lambda>r. (date r, weather_quality r, nice_streak r, prev_day_quality r))
       (momentum_table [?sat, ?sun, ?mon])
     = [(5, ''nice'', 1, None), (7, ''nice'', 2, Some ''nice'')]"
    by code_simp
  have sunday: "classify_day_weather (weather ?sun) = ''bad''" by code_simp
  have h1: "sorted_wrt (\<lambda>a b. date a < date b) ([] @ [?sat, ?sun, ?mon] @ [])"
    by (simp add: sample_day_def)
  have h2: "year ?sat \<in> {2021, 2022, 2023, 2024, 2025}" "year ?mon = year ?sat"
    "dow ?sat = 5" "dow ?sun = 6" "dow ?mon = 0"
    by (simp_all add: sample_day_def)
  have k: "length (load_data []) = 0" by (simp add: load_data_def)
  have q: "weather_quality (momentum_table [?sat, ?sun, ?mon] ! Suc 0) = ''nice''" by code_simp
  note inst = momentum_skips_sunday [OF h1 h2, unfolded Let_def k append_Nil append_Nil2]
  from inst
  have "nice_streak (momentum_table [?sat, ?sun, ?mon] ! Suc 0)
        = (if weather_quality (momentum_table [?sat, ?sun, ?mon] ! Suc 0) = ''nice''
           then 1 + nice_streak (momentum_table [?sat, ?sun, ?mon] ! 0) else 0)"
    by blast
  then have grow: "nice_streak (momentum_table [?sat, ?sun, ?mon] ! Suc 0)
              = 1 + nice_streak (momentum_table [?sat, ?sun, ?mon] ! 0)"
    unfolding q by simp
  from rows sunday grow show ?thesis by blast
qed

section \<open>Rolling-average theorems\<close>

lemma assign_length: "length (assign df idx vs f) = length df"
  by (induction df idx vs f rule: assign.induct) simp_all

lemma assign_out: "i \<notin> set idx \<Longrightarrow> assign df idx vs f ! i = df ! i"
  by (induction df idx vs f rule: assign.induct) simp_all

lemma assign_at:
  "distinct idx \<Longrightarrow> \<forall>j \<in> set idx. j < length df \<Longrightarrow> length vs = length idx \<Longrightarrow> i \<in> set idx \<Longrightarrow>
   assign df idx vs f ! i = f (vs ! length (takeWhile (\<lambda>j. j \<noteq> i) idx)) (df ! i)"
proof (induction df idx vs f rule: assign.induct)
  case (1 df vs f)
  then show ?case by simp
next
  case (2 df i idx f)
  then show ?case by simp
next
  case (3 df j idx v vs f)
  show ?case
  proof (cases "i = j")
    case True
    with "3.prems" show ?thesis by (simp add: assign_out)
  next
    case False
    with "3.prems" have "i \<in> set idx" "distinct idx" "\<forall>k \<in> set idx. k < length (df[j := f v (df ! j)])"
      "length vs = length idx" by simp_all
    from "3.IH" [OF this(2,3,4,1)] False show ?thesis by simp
  qed
qed

lemma rolling_mean_length: "length (rolling_mean xs) = length xs"
  by (simp add: rolling_mean_def)

lemma rolling_mean_nth:
  "k < length xs \<Longrightarrow> rolling_mean xs ! k = window_mean (trailing3 (take (Suc k) xs))"
proof -
  assume k: "k < length xs"
  then have "length (take (Suc k) xs) - 3 = Suc k - 3" by simp
  with k show ?thesis by (simp add: rolling_mean_def trailing3_def)
qed

lemma take_index:
  "distinct idx \<Longrightarrow> i \<in> set idx \<Longrightarrow>
   take (Suc (length (takeWhile (\<lambda>j. j \<noteq> i) idx))) idx = takeWhile (\<lambda>j. j \<noteq> i) idx @ [i]"
proof (induction idx)
  case Nil
  then show ?case by simp
next
  case (Cons a idx)
  then show ?case by (cases "a = i") auto
qed

lemma index_less: "i \<in> set idx \<Longrightarrow> length (takeWhile (\<lambda>j. j \<noteq> i) idx) < length idx"
  by (induction idx) auto

lemma roll_year_length: "length (roll_year d idx) = length d"
  by (simp add: roll_year_def Let_def assign_length)

lemma roll_year_out: "i \<notin> set idx \<Longrightarrow> roll_year d idx ! i = d ! i"
  by (simp add: roll_year_def Let_def assign_out)

lemma roll_year_at:
  assumes "distinct idx" "\<forall>j \<in> set idx. j < length d" "i \<in> set idx"
  shows "roll_year d idx ! i = rolled (map ((!) d) (takeWhile (\<lambda>j. j \<noteq> i) idx)) (d ! i)"
proof -
  define k where "k = length (takeWhile (\<lambda>j. j \<noteq> i) idx)"
  define T where "T = map (\<lambda>i. observed (temp_max (weather (d ! i)))) idx"
  define d1 where "d1 = assign d idx (rolling_mean T) (\<lambda>v r. r\<lparr>temp_max_3d_avg := v\<rparr>)"
  define S where "S = map (\<lambda>i. observed (sunshine_hrs (weather (d1 ! i)))) idx"
  have k: "k < length idx" unfolding k_def by (rule index_less [OF assms(3)])
  have tk: "take (Suc k) idx = takeWhile (\<lambda>j. j \<noteq> i) idx @ [i]"
    unfolding k_def by (rule take_index [OF assms(1,3)])
  have d1_at: "d1 ! j = (d ! j)\<lparr>temp_max_3d_avg := rolling_mean T ! length (takeWhile (\<lambda>l. l \<noteq> j) idx)\<rparr>"
    if "j \<in> set idx" for j
    unfolding d1_def using assign_at [OF assms(1,2) _ that, of "rolling_mean T"]
    by (simp add: rolling_mean_length T_def)
  have S: "S = map (\<lambda>i. observed (sunshine_hrs (weather (d ! i)))) idx"
    unfolding S_def by (rule map_cong [OF refl]) (simp add: d1_at)
  have len1: "\<forall>j \<in> set idx. j < length d1" using assms(2) by (simp add: d1_def assign_length)
  have "roll_year d idx ! i = (d1 ! i)\<lparr>sunshine_3d_avg := rolling_mean S ! k\<rparr>"
    unfolding roll_year_def Let_def T_def [symmetric] d1_def [symmetric] S_def [symmetric] k_def
    using assign_at [OF assms(1) len1 _ assms(3), of "rolling_mean S"]
    by (simp add: rolling_mean_length S_def)
  also have "\<dots> = (d ! i)\<lparr>temp_max_3d_avg := rolling_mean T ! k, sunshine_3d_avg := rolling_mean S ! k\<rparr>"
    by (simp add: d1_at [OF assms(3)] k_def)
  also have "rolling_mean T ! k = window_mean (trailing3 (take (Suc k) T))"
    using k by (simp add: rolling_mean_nth T_def)
  also have "rolling_mean S ! k = window_mean (trailing3 (take (Suc k) S))"
    using k by (simp add: rolling_mean_nth S)
  also have "take (Suc k) T = map (\<lambda>p. observed (temp_max (weather p)))
                                (map ((!) d) (takeWhile (\<lambda>j. j \<noteq> i) idx) @ [d ! i])"
    unfolding T_def take_map tk by simp
  also have "take (Suc k) S = map (\<lambda>p. observed (sunshine_hrs (weather p)))
                                (map ((!) d) (takeWhile (\<lambda>j. j \<noteq> i) idx) @ [d ! i])"
    unfolding S take_map tk by simp
  finally show ?thesis by (simp add: rolled_def)
qed


lemma feature_columns_simps:
  "year (feature_columns r) = year r" "date (feature_columns r) = date r"
  "weather (feature_columns r) = weather r"
  "year_trend (feature_columns r) = year r - 2021"
  by (simp_all add: feature_columns_def merged.defs featured.defs lead_day.defs)

lemma rolled_simps:
  "year (rolled p r) = year r" "date (rolled p r) = date r" "weather (rolled p r) = weather r"
  "temp_max_3d_avg (rolled p r)
     = window_mean (trailing3 (map (\<lambda>p. observed (temp_max (weather p))) (p @ [r])))"
  "sunshine_3d_avg (rolled p r)
     = window_mean (trailing3 (map (\<lambda>p. observed (sunshine_hrs (weather p))) (p @ [r])))"
  by (simp_all add: rolled_def)

lemma insort_key_map:
  assumes "\<And>r. f (g r) = h r"
  shows "insort_key f (g x) (map g ys) = map g (insort_key h x ys)"
  by (induction ys) (simp_all add: assms)

lemma sort_key_map:
  assumes "\<And>r. f (g r) = h r"
  shows "sort_key f (map g xs) = map g (sort_key h xs)"
  by (induction xs) (simp_all add: insort_key_map [where h = h] assms)

lemma engineered_simps:
  "year (engineered p r) = year r" "date (engineered p r) = date r"
  "weather (engineered p r) = weather r"
  "temp_max_3d_avg (engineered p r)
     = window_mean (trailing3 (map (\<lambda>p. observed (temp_max (weather p))) (p @ [r])))"
  "sunshine_3d_avg (engineered p r)
     = window_mean (trailing3 (map (\<lambda>p. observed (sunshine_hrs (weather p))) (p @ [r])))"
  by (simp_all add: engineered_def rolled_simps feature_columns_simps comp_def)

lemma engineer_features_length: "length (engineer_features df) = length df"
  unfolding engineer_features_def Let_def
  by (simp add: foldl_groups_length [where step = roll_year] roll_year_length)

lemma engineer_features_nth:
  assumes "i < length df"
  shows "engineer_features df ! i
         = engineered (filter (\<lambda>r. year r = year (sort_key date df ! i)) (take i (sort_key date df)))
                      (sort_key date df ! i)"
proof -
  define T where "T = sort_key date df"
  define df0 where "df0 = map feature_columns T"
  have sorted0: "sort_key date (map feature_columns df) = df0"
    unfolding df0_def T_def by (rule sort_key_map) (simp add: feature_columns_simps)
  have ef: "engineer_features df
            = foldl (\<lambda>d y. roll_year d (mask_index year d y)) df0 (unique (map year df0))"
    unfolding engineer_features_def Let_def sorted0 ..
  have i0: "i < length df0" using assms by (simp add: df0_def T_def)
  have "foldl (\<lambda>d y. roll_year d (mask_index year d y)) df0 (unique (map year df0)) ! i
        = (if year (df0 ! i) \<in> set (unique (map year df0))
           then rolled (filter (\<lambda>r. year r = year (df0 ! i)) (take i df0)) (df0 ! i) else df0 ! i)"
  proof (rule foldl_groups_nth [where step = roll_year and G = rolled])
    show "\<And>d idx. length (roll_year d idx) = length d" by (rule roll_year_length)
    show "\<And>d idx i. i \<notin> set idx \<Longrightarrow> roll_year d idx ! i = d ! i" by (rule roll_year_out)
    show "\<And>d idx i. distinct idx \<Longrightarrow> \<forall>j\<in>set idx. j < length d \<Longrightarrow> i \<in> set idx \<Longrightarrow>
       roll_year d idx ! i = rolled (map ((!) d) (takeWhile (\<lambda>j. j \<noteq> i) idx)) (d ! i)"
      by (rule roll_year_at)
    show "\<And>p r. year (rolled p r) = year r" by (simp add: rolled_simps)
    show "distinct (unique (map year df0))" by (rule distinct_unique)
    show "i < length df0" by (rule i0)
  qed
  moreover have "year (df0 ! i) \<in> set (unique (map year df0))"
    using i0 by (simp add: set_unique)
  ultimately have "engineer_features df ! i
      = rolled (filter (\<lambda>r. year r = year (df0 ! i)) (take i df0)) (df0 ! i)"
    by (simp add: ef)
  moreover have "df0 ! i = feature_columns (T ! i)" using assms by (simp add: df0_def T_def)
  moreover have "filter (\<lambda>r. year r = y) (take i df0)
                 = map feature_columns (filter (\<lambda>r. year r = y) (take i T))" for y
    by (simp add: df0_def take_map filter_map comp_def feature_columns_simps)
  ultimately show ?thesis
    by (simp add: engineered_def T_def feature_columns_simps)
qed

lemma engineer_features_map:
  "engineer_features df
   = map (\<lambda>i. engineered (filter (\<lambda>r. year r = year (sort_key date df ! i))
                                  (take i (sort_key date df)))
                          (sort_key date df ! i)) [0..<length (sort_key date df)]"
  by (rule nth_equalityI) (simp_all add: engineer_features_length engineer_features_nth)

lemma season_engineer_features:
  "season y (engineer_features df)
   = map (\<lambda>k. engineered (take k (season y (sort_key date df))) (season y (sort_key date df) ! k))
         [0..<length (season y (sort_key date df))]"
  unfolding season_def engineer_features_map
  by (rule filter_map_prefix) (simp add: engineered_simps)

lemma season_sort: "season y (sort_key date df) = sort_key date (season y df)"
  unfolding season_def by (rule filter_sort)

lemma season_engineer_independent:
  "season y (engineer_features df) = engineer_features (season y df)"
proof -
  have "engineer_features (season y df)
        = map (\<lambda>i. engineered (take i (season y (sort_key date df))) (season y (sort_key date df) ! i))
              [0..<length (season y (sort_key date df))]"
    unfolding engineer_features_map [of "season y df"] season_sort [symmetric]
    by (rule map_cong [OF refl]) (simp add: season_idem)
  then show ?thesis unfolding season_engineer_features ..
qed

lemma window_mean_single: "window_mean [v] = v"
  by (cases v) (simp_all add: window_mean_def)

lemma map_date_sort_key: "map date (sort_key date xs) = sort (map date xs)"
  by (rule sort_key_map [symmetric]) simp

text \<open>
  Claim C6. Within the rows of one year, in date-ascending order, each of the two 3-day
  averages is the mean of the observations among the day and up to two days before it
  in that year's own series (NaN when there is none). On the first day of a year the
  average is the day's own value. The rows of a year come out the same when the table
  holds that year alone, so no value of another year enters an average.
\<close>

theorem rolling_average_per_year:
  "season y (engineer_features df) = engineer_features (season y df)
   \<and> map date (season y (engineer_features df)) = sort (map date (season y df))
   \<and> (k < length (season y (engineer_features df)) \<longrightarrow>
       (let ys = season y (engineer_features df);
            temps = map (\<lambda>r. observed (temp_max (weather r))) ys;
            suns = map (\<lambda>r. observed (sunshine_hrs (weather r))) ys
        in temp_max_3d_avg (ys ! k) = window_mean (drop (Suc k - 3) (take (Suc k) temps))
           \<and> sunshine_3d_avg (ys ! k) = window_mean (drop (Suc k - 3) (take (Suc k) suns))
           \<and> (k = 0 \<longrightarrow> temp_max_3d_avg (ys ! k) = temps ! k
                         \<and> sunshine_3d_avg (ys ! k) = suns ! k)))"
proof (intro conjI impI)
  show "season y (engineer_features df) = engineer_features (season y df)"
    by (rule season_engineer_independent)
next
  have "map date (season y (engineer_features df)) = map date (season y (sort_key date df))"
    unfolding season_engineer_features
    by (rule nth_equalityI) (simp_all add: engineered_simps)
  then show "map date (season y (engineer_features df)) = sort (map date (season y df))"
    by (simp add: season_sort map_date_sort_key)
next
  define fs where "fs = season y (sort_key date df)"
  define ys where "ys = season y (engineer_features df)"
  define temps where "temps = map (\<lambda>r. observed (temp_max (weather r))) ys"
  define suns where "suns = map (\<lambda>r. observed (sunshine_hrs (weather r))) ys"
  assume "k < length (season y (engineer_features df))"
  then have k: "k < length fs" by (simp add: season_engineer_features fs_def)
  have len: "length ys = length fs" by (simp add: ys_def fs_def season_engineer_features)
  have ys: "ys ! j = engineered (take j fs) (fs ! j)" if "j < length fs" for j
    using that unfolding ys_def fs_def season_engineer_features by simp
  have temps: "temps = map (\<lambda>r. observed (temp_max (weather r))) fs"
    unfolding temps_def by (rule nth_equalityI) (simp_all add: len ys engineered_simps)
  have suns: "suns = map (\<lambda>r. observed (sunshine_hrs (weather r))) fs"
    unfolding suns_def by (rule nth_equalityI) (simp_all add: len ys engineered_simps)
  have tk: "take k fs @ [fs ! k] = take (Suc k) fs"
    using k by (simp add: take_Suc_conv_app_nth)
  have tr: "trailing3 (take (Suc k) zs) = drop (Suc k - 3) (take (Suc k) zs)"
    if "k < length zs" for zs :: "real option list"
  proof -
    from that have "length (take (Suc k) zs) = Suc k" by simp
    then show ?thesis by (simp add: trailing3_def)
  qed
  have t: "temp_max_3d_avg (ys ! k) = window_mean (drop (Suc k - 3) (take (Suc k) temps))"
    unfolding ys [OF k] engineered_simps tk temps take_map [symmetric]
    using tr [of "map (\<lambda>r. observed (temp_max (weather r))) fs"] k by simp
  have s: "sunshine_3d_avg (ys ! k) = window_mean (drop (Suc k - 3) (take (Suc k) suns))"
    unfolding ys [OF k] engineered_simps tk suns take_map [symmetric]
    using tr [of "map (\<lambda>r. observed (sunshine_hrs (weather r))) fs"] k by simp
  have first: "temp_max_3d_avg (ys ! k) = temps ! k \<and> sunshine_3d_avg (ys ! k) = suns ! k"
    if "k = 0"
  proof -
    have "take (Suc 0) zs = [zs ! 0]" if "0 < length zs" for zs :: "real option list"
      using that by (cases zs) simp_all
    with k that show ?thesis
      unfolding t s by (simp add: temps suns window_mean_single del: take_Suc_Cons)
  qed
  from t s first
  show "let ys = season y (engineer_features df);
            temps = map (\<lambda>r. observed (temp_max (weather r))) ys;
            suns = map (\<lambda>r. observed (sunshine_hrs (weather r))) ys
        in temp_max_3d_avg (ys ! k) = window_mean (drop (Suc k - 3) (take (Suc k) temps))
           \<and> sunshine_3d_avg (ys ! k) = window_mean (drop (Suc k - 3) (take (Suc k) suns))
           \<and> (k = 0 \<longrightarrow> temp_max_3d_avg (ys ! k) = temps ! k
                         \<and> sunshine_3d_avg (ys ! k) = suns ! k)"
    unfolding Let_def ys_def [symmetric] temps_def [symmetric] suns_def [symmetric] by blast
qed

theorem rolling_average_per_year_witness:
  "map (\<lambda>r. (date r, temp_max_3d_avg r, sunshine_3d_avg r))
       (engineer_features
          [sample_day 400 2022 2 9 (Num 30) NaN (Num 0),
           sample_day 1 2021 0 10 (Num 60) (Num 9) (Num 0),
           sample_day 2 2021 1 12 (Num 66) (Num 8) (Num 0),
           sample_day 401 2022 3 9 (Num 40) (Num 2) (Num 0)])
     = [(1, Some 60, Some 9), (2, Some 63, Some (17 / 2)), (400, Some 30, None),
        (401, Some 35, Some 2)]
   \<and> temp_max_3d_avg (season 2022 (engineer_features
          [sample_day 400 2022 2 9 (Num 30) NaN (Num 0),
           sample_day 1 2021 0 10 (Num 60) (Num 9) (Num 0),
           sample_day 2 2021 1 12 (Num 66) (Num 8) (Num 0),
           sample_day 401 2022 3 9 (Num 40) (Num 2) (Num 0)]) ! 0)
      = observed (temp_max (weather (sample_day 400 2022 2 9 (Num 30) NaN (Num 0))))"
proof -
  let ?ex = "[sample_day 400 2022 2 9 (Num 30) NaN (Num 0),
           sample_day 1 2021 0 10 (Num 60) (Num 9) (Num 0),
           sample_day 2 2021 1 12 (Num 66) (Num 8) (Num 0),
           sample_day 401 2022 3 9 (Num 40) (Num 2) (Num 0)]"
  have rows: "map (\<lambda>r. (date r, temp_max_3d_avg r, sunshine_3d_avg r)) (engineer_features ?ex)
     = [(1, Some 60, Some 9), (2, Some 63, Some (17 / 2)), (400, Some 30, None),
        (401, Some 35, Some 2)]"
    by code_simp
  have len: "0 < length (season 2022 (engineer_features ?ex))" by code_simp
  have w: "weather (season 2022 (engineer_features ?ex) ! 0)
           = weather (sample_day 400 2022 2 9 (Num 30) NaN (Num 0))" by code_simp
  note inst = rolling_average_per_year [of 2022 ?ex 0, THEN conjunct2, THEN conjunct2, THEN mp,
                  OF len, unfolded Let_def, THEN conjunct2, THEN conjunct2, THEN mp, OF refl,
                  THEN conjunct1]
  from inst len
  have "temp_max_3d_avg (season 2022 (engineer_features ?ex) ! 0)
        = observed (temp_max (weather (season 2022 (engineer_features ?ex) ! 0)))"
    by simp
  with rows show ?thesis unfolding w by blast
qed

section \<open>Cross-validation theorems\<close>






section \<open>Holdout theorems\<close>

lemma engineer_features_years:
  assumes "r \<in> set (engineer_features df)"
  shows "year r \<in> year ` set df"
proof -
  from assms obtain i where i: "i < length df" and r: "r = engineer_features df ! i"
    by (auto simp: in_set_conv_nth engineer_features_length)
  have "year r = year (sort_key date df ! i)"
    unfolding r engineer_features_nth [OF i] by (simp add: engineered_simps)
  moreover have "sort_key date df ! i \<in> set (sort_key date df)"
    using i by (intro nth_mem) simp
  ultimately show ?thesis by (simp del: nth_mem)
qed


lemma holdout_split_ignores_2026:
  "holdout_split (filter (\<lambda>r. year r \<noteq> 2026) csv) = holdout_split csv"
proof -
  have "filter (\<lambda>r. year r \<in> {2021, 2022, 2023, 2024, 2025}) (filter (\<lambda>r. year r \<noteq> 2026) csv)
        = filter (\<lambda>r. year r \<in> {2021, 2022, 2023, 2024, 2025}) csv"
    unfolding filter_filter by (rule filter_cong) auto
  then show ?thesis unfolding holdout_split_def by simp
qed

lemma holdout_test_ignores_2026:
  "holdout_test fit (filter (\<lambda>r. year r \<noteq> 2026) csv) = holdout_test fit csv"
  unfolding holdout_test_def holdout_split_ignores_2026 ..

text \<open>
  Claim C5. The figures of the holdout (MAE, R2, MAPE, season totals, the weekly,
  day-of-week and weather-quality breakdowns) are the same on a table with rows of 2026
  and on the same table with those rows removed: the table the validation works on and
  both partitions are the same in the two runs, the training partition holds rows of
  2021 to 2024 only, the test partition rows of 2025 only, and no row of 2026 reaches
  feature engineering.
\<close>

theorem holdout_ignores_2026:
  "map_sum id fst (run_holdout_validation fit csv)
     = map_sum id fst (run_holdout_validation fit (filter (\<lambda>r. year r \<noteq> 2026) csv))
   \<and> holdout_split csv = holdout_split (filter (\<lambda>r. year r \<noteq> 2026) csv)
   \<and> (case holdout_split csv of (df, train, test) \<Rightarrow>
         (\<forall>r \<in> set train. year r \<in> {2021, 2022, 2023, 2024})
         \<and> (\<forall>r \<in> set test. year r = 2025)
         \<and> (\<forall>r \<in> set df. year r \<noteq> 2026))"
proof (intro conjI)
  show "map_sum id fst (run_holdout_validation fit csv)
     = map_sum id fst (run_holdout_validation fit (filter (\<lambda>r. year r \<noteq> 2026) csv))"
    unfolding run_holdout_validation_def holdout_test_ignores_2026
    by (simp split: sum.split prod.split)
  show "holdout_split csv = holdout_split (filter (\<lambda>r. year r \<noteq> 2026) csv)"
    by (rule holdout_split_ignores_2026 [symmetric])
  show "case holdout_split csv of (df, train, test) \<Rightarrow>
         (\<forall>r \<in> set train. year r \<in> {2021, 2022, 2023, 2024})
         \<and> (\<forall>r \<in> set test. year r = 2025)
         \<and> (\<forall>r \<in> set df. year r \<noteq> 2026)"
  proof -
    have "year r \<in> {2021, 2022, 2023, 2024, 2025}"
      if "r \<in> set (engineer_features (filter has_weather
            (filter (\<lambda>r. year r \<in> {2021, 2022, 2023, 2024, 2025}) csv)))" for r
      using engineer_features_years [OF that] by auto
    then have "year r \<in> {2021, 2022, 2023, 2024, 2025} \<and> year r \<noteq> 2026"
      if "r \<in> set (engineer_features (filter has_weather
            (filter (\<lambda>r. year r \<in> {2021, 2022, 2023, 2024, 2025}) csv)))" for r
      using that by force
    then show ?thesis
      unfolding holdout_split_def Let_def by (simp del: filter_filter)
  qed
qed


theorem holdout_ignores_2026_witness:
  "map_sum id (\<lambda>(report, check). (holdout_mae report, total_actual report, total_predicted report))
      (run_holdout_validation mean_regressor
         [sample_day 1 2021 0 10 (Num 60) (Num 9) (Num 0),
          sample_day 2 2021 1 14 (Num 66) (Num 8) (Num 0),
          sample_day 400 2025 2 9 (Num 30) (Num 1) (Num 0),
          sample_day 401 2025 3 15 (Num 40) (Num 2) (Num 0),
          sample_day 800 2026 3 20 (Num 40) (Num 2) (Num 0)])
     = Inr (3, 24, 24)
   \<and> map_sum id fst (run_holdout_validation mean_regressor
         [sample_day 1 2021 0 10 (Num 60) (Num 9) (Num 0),
          sample_day 2 2021 1 14 (Num 66) (Num 8) (Num 0),
          sample_day 400 2025 2 9 (Num 30) (Num 1) (Num 0),
          sample_day 401 2025 3 15 (Num 40) (Num 2) (Num 0),
          sample_day 800 2026 3 20 (Num 40) (Num 2) (Num 0)])
     = map_sum id fst (run_holdout_validation mean_regressor
         [sample_day 1 2021 0 10 (Num 60) (Num 9) (Num 0),
          sample_day 2 2021 1 14 (Num 66) (Num 8) (Num 0),
          sample_day 400 2025 2 9 (Num 30) (Num 1) (Num 0),
          sample_day 401 2025 3 15 (Num 40) (Num 2) (Num 0)])"
proof -
  let ?with = "[sample_day 1 2021 0 10 (Num 60) (Num 9) (Num 0),
          sample_day 2 2021 1 14 (Num 66) (Num 8) (Num 0),
          sample_day 400 2025 2 9 (Num 30) (Num 1) (Num 0),
          sample_day 401 2025 3 15 (Num 40) (Num 2) (Num 0),
          sample_day 800 2026 3 20 (Num 40) (Num 2) (Num 0)]"
  have figures: "map_sum id (\<lambda>(report, check). (holdout_mae report, total_actual report, total_predicted report))
      (run_holdout_validation mean_regressor ?with) = Inr (3, 24, 24)"
    by code_simp
  have removed: "filter (\<lambda>r. year r \<noteq> 2026) ?with
      = [sample_day 1 2021 0 10 (Num 60) (Num 9) (Num 0),
          sample_day 2 2021 1 14 (Num 66) (Num 8) (Num 0),
          sample_day 400 2025 2 9 (Num 30) (Num 1) (Num 0),
          sample_day 401 2025 3 15 (Num 40) (Num 2) (Num 0)]"
    by (simp add: sample_day_def)
  from holdout_ignores_2026 [of mean_regressor ?with, THEN conjunct1]
  have "map_sum id fst (run_holdout_validation mean_regressor ?with)
        = map_sum id fst (run_holdout_validation mean_regressor (filter (\<lambda>r. year r \<noteq> 2026) ?with))" .
  with figures show ?thesis unfolding removed by blast
qed

end
